theory Spec2Isabelle
  imports Main "HOL-Library.Sublist" "HOL-Library.AList"
begin

section \<open>JavaScript values used by Queue.js\<close>

text \<open>
  Strings are byte lists. \<open>startsWith\<close> and \<open>String.prototype.includes\<close> are the two
  string tests the class uses; \<open>decimal\<close> is the decimal text of a counter.
\<close>

definition startsWith :: "string \<Rightarrow> string \<Rightarrow> bool" where
  "startsWith s p = prefix p s"

fun str_includes :: "string \<Rightarrow> string \<Rightarrow> bool" where
  "str_includes [] p = (p = [])"
| "str_includes (c # cs) p = (prefix p (c # cs) \<or> str_includes cs p)"

definition digit :: "nat \<Rightarrow> char" where
  "digit n = ''0123456789'' ! n"

function decimal :: "nat \<Rightarrow> string" where
  "decimal n = (if n < 10 then [digit n] else decimal (n div 10) @ [digit (n mod 10)])"
  by pat_completeness auto
termination
  by (relation "measure (\<lambda>n. n)") auto

declare decimal.simps [simp del]

text \<open>
  An exception is a value. Errors of the store client carry the message that
  \<open>safeEvalsha\<close> inspects; \<open>SyntaxError\<close> is what \<open>JSON.parse\<close> throws and \<open>TypeError\<close>
  what a property read on \<open>undefined\<close> or \<open>null\<close> throws.
\<close>

datatype js_error = ReplyError string | SyntaxError | TypeError

fun message :: "js_error \<Rightarrow> string" where
  "message (ReplyError m) = m"
| "message SyntaxError = ''SyntaxError''"
| "message TypeError = ''TypeError''"

text \<open>
  The values that a payload and a parsed text can be: the JSON values, with the numbers
  restricted to the integers that JavaScript holds exactly and prints digit by digit
  (below 2 to the power 53 in magnitude), and the number \<open>NaN\<close>, which is a value of
  JavaScript and not one of JSON: \<open>JSON.stringify(NaN)\<close> is the text \<open>null\<close>.
  \<open>JSON.parse\<close> and \<open>JSON.stringify\<close> are the runtime's, not the repository's: the
  functions that call them take them as the two fields of a \<open>json_lib\<close>.
\<close>

datatype json = JNull | JBool bool | JNum int | JNaN | JStr string | JArr "json list"
  | JObj "(string \<times> json) list"

record json_lib =
  parse :: "string \<Rightarrow> json option"
  stringify :: "json \<Rightarrow> string"

text \<open>Reading property \<open>k\<close> of a parsed value; \<open>None\<close> is \<open>undefined\<close>.\<close>

fun getProp :: "json \<Rightarrow> string \<Rightarrow> json option" where
  "getProp (JObj fs) k = map_of fs k"
| "getProp _ k = None"

text \<open>
  A value inside a template literal. Strings are themselves, \<open>undefined\<close>, \<open>null\<close> and
  \<open>NaN\<close> print their names; arrays and objects print as \<open>Array.prototype.toString\<close> and
  \<open>Object.prototype.toString\<close> do. A number prints its digits, which is what JavaScript
  does for the integers that \<open>JNum\<close> stands for.
\<close>

fun join_comma :: "string list \<Rightarrow> string" where
  "join_comma [] = []"
| "join_comma [s] = s"
| "join_comma (s # t # ss) = s @ '','' @ join_comma (t # ss)"

fun toStr :: "json \<Rightarrow> string" where
  "toStr JNull = ''null''"
| "toStr (JBool b) = (if b then ''true'' else ''false'')"
| "toStr (JNum i) = (if i < 0 then ''-'' @ decimal (nat (- i)) else decimal (nat i))"
| "toStr JNaN = ''NaN''"
| "toStr (JStr s) = s"
| "toStr (JArr xs) = join_comma (map (\<lambda>x. if x = JNull then [] else toStr x) xs)"
| "toStr (JObj fs) = ''[object Object]''"

definition template :: "json option \<Rightarrow> string" where
  "template v = (case v of None \<Rightarrow> ''undefined'' | Some j \<Rightarrow> toStr j)"

section \<open>The store\<close>

text \<open>
  The four Lua files that \<open>init\<close> reads, as values: a script is known by the file it came
  from. \<open>Empty_lua\<close> is the empty text, which is what the client library sends when the
  source handed to it is \<open>undefined\<close>. A digest is kept symbolic: \<open>SHA1 s\<close> is the digest of
  source \<open>s\<close>.
\<close>

datatype lua_source = Enqueue_lua | Dequeue_lua | Update_status_lua | Get_status_lua
  | Empty_lua

datatype digest = SHA1 lua_source

text \<open>A reply of the store as the client hands it to JavaScript; \<open>Null\<close> is \<open>null\<close>.\<close>

datatype reply = Null | Str string | Arr "string option list"

datatype command = EVALSHA "digest option" | SCRIPT_LOAD lua_source | PUBLISH string string

text \<open>
  The value of a field of the hash \<open>activeGroupConsumers\<close>. The code stores
  \<open>JSON.stringify(info)\<close> and reads it back with \<open>JSON.parse\<close>; the model keeps the object
  itself, which is what that pair returns for an object of three plain fields.
\<close>

record consumer_info =
  owner :: string
  shouldStop :: bool
  workerId :: string

text \<open>
  The store: the script cache, the hashes, lists and sets by key, the job counter that
  the enqueue script draws ids from, the hash \<open>activeGroupConsumers\<close>, and the messages
  published so far as pairs of channel and payload. \<open>faults\<close> is the environment's part:
  the fate of the next script and publish commands in order, \<open>Some e\<close> for a command
  that fails with \<open>e\<close> before it has any effect, \<open>None\<close> (or no entry) for one that goes
  through. \<open>commands\<close> records those commands as they are sent. The commands on
  \<open>activeGroupConsumers\<close> and on the other hashes are taken to go through, and the
  connection pool (\<open>getClient\<close>, \<open>releaseClient\<close>) is not modelled.
\<close>

record redis =
  scriptCache :: "(digest \<times> lua_source) list"
  hashStore :: "string \<Rightarrow> string \<Rightarrow> string option"
  listStore :: "string \<Rightarrow> string list"
  setStore :: "string \<Rightarrow> string list"
  jobCounter :: nat
  activeGroupConsumers :: "(string \<times> consumer_info) list"
  published :: "(string \<times> string) list"
  faults :: "js_error option list"
  commands :: "command list"

definition HGET :: "string \<Rightarrow> string \<Rightarrow> redis \<Rightarrow> string option" where
  "HGET k f r = hashStore r k f"

definition HSET :: "string \<Rightarrow> string \<Rightarrow> string \<Rightarrow> redis \<Rightarrow> redis" where
  "HSET k f v r = r\<lparr>hashStore := (hashStore r)(k := (hashStore r k)(f \<mapsto> v))\<rparr>"

definition RPUSH :: "string \<Rightarrow> string \<Rightarrow> redis \<Rightarrow> redis" where
  "RPUSH k v r = r\<lparr>listStore := (listStore r)(k := listStore r k @ [v])\<rparr>"

definition SADD :: "string \<Rightarrow> string \<Rightarrow> redis \<Rightarrow> redis" where
  "SADD k v r =
     (if v \<in> set (setStore r k) then r
      else r\<lparr>setStore := (setStore r)(k := setStore r k @ [v])\<rparr>)"

definition LPOP :: "string \<Rightarrow> redis \<Rightarrow> redis" where
  "LPOP k r = r\<lparr>listStore := (listStore r)(k := tl (listStore r k))\<rparr>"

subsection \<open>The scripts\<close>

text \<open>
  A script runs as one step of the store: it takes \<open>KEYS\<close> and \<open>ARGV\<close> and returns its
  reply, or the error it raised, and the store it leaves.
\<close>

text \<open>The key of a Job record, as \<open>get_status.lua\<close> builds it.\<close>

definition jobKey :: "string \<Rightarrow> string" where
  "jobKey job_id = ''qube:queue:job:'' @ job_id"

text \<open>
  \<open>get_status.lua\<close>: the field \<open>status\<close> of the hash \<open>qube:queue:job:\<close> followed by
  \<open>ARGV[1]\<close>. Concatenating a missing \<open>ARGV[1]\<close> raises; a missing field is Lua's \<open>false\<close>,
  which the store returns as \<open>null\<close>.
\<close>

definition get_status_lua ::
  "string list \<Rightarrow> string list \<Rightarrow> redis \<Rightarrow> (js_error + reply) \<times> redis" where
  "get_status_lua KEYS ARGV r =
     (case ARGV of
        [] \<Rightarrow> (Inl (ReplyError ''ERR attempt to concatenate a nil value''), r)
      | job_id # _ \<Rightarrow>
          (Inr (case HGET (''qube:queue:job:'' @ job_id) ''status'' r of
                  None \<Rightarrow> Null
                | Some status \<Rightarrow> Str status), r))"

text \<open>
  Modelled from the spec: \<open>enqueue.lua\<close> is read by \<open>init\<close> but is not among the sources.
  Section 4.1: it allocates a fresh job id from a monotonic counter in the store, writes
  the Job record with \<open>status = pending\<close>, \<open>progress = 0\<close>, \<open>group = groupName\<close> and
  \<open>data = payloadJSON\<close>, appends the id to the list at \<open>groupKey\<close>, adds \<open>groupKey\<close> to the
  set at \<open>queueKey\<close>, and returns the id. The Job record is the hash at
  \<open>qube:queue:job:{jobId}\<close> (section 3). A call with fewer keys or arguments than these
  is answered with an error and changes nothing.
\<close>

definition enqueue_lua ::
  "string list \<Rightarrow> string list \<Rightarrow> redis \<Rightarrow> (js_error + reply) \<times> redis" where
  "enqueue_lua KEYS ARGV r =
     (case (KEYS, ARGV) of
        (queueKey # groupKey # _, payloadJSON # groupName # _) \<Rightarrow>
          let r1 = r\<lparr>jobCounter := Suc (jobCounter r)\<rparr>;
              jobId = decimal (jobCounter r1);
              r2 = HSET (jobKey jobId) ''status'' ''pending'' r1;
              r3 = HSET (jobKey jobId) ''progress'' ''0'' r2;
              r4 = HSET (jobKey jobId) ''group'' groupName r3;
              r5 = HSET (jobKey jobId) ''data'' payloadJSON r4;
              r6 = RPUSH groupKey jobId r5;
              r7 = SADD queueKey groupKey r6
          in (Inr (Str jobId), r7)
      | _ \<Rightarrow> (Inl (ReplyError ''ERR wrong number of arguments''), r))"

text \<open>
  Modelled from the spec: \<open>dequeue.lua\<close> is read by \<open>init\<close> but is not among the sources.
  Section 4.1: it pops the head of the list at \<open>groupKey\<close> and returns nil when the list
  is empty; it sets the Job record's status from \<open>pending\<close> to \<open>active\<close>, rejecting if
  it is not \<open>pending\<close>; it returns the id, the stored payload and the group name. The
  spec uses "rejects" for a status write that is left out (I4, and "otherwise is a no-op"
  for \<open>update_status\<close>), so a record that is not \<open>pending\<close> keeps its status.
\<close>

definition dequeue_lua ::
  "string list \<Rightarrow> string list \<Rightarrow> redis \<Rightarrow> (js_error + reply) \<times> redis" where
  "dequeue_lua KEYS ARGV r =
     (case KEYS of
        [] \<Rightarrow> (Inl (ReplyError ''ERR wrong number of arguments''), r)
      | groupKey # _ \<Rightarrow>
          (case listStore r groupKey of
             [] \<Rightarrow> (Inr Null, r)
           | jobId # _ \<Rightarrow>
               let r1 = LPOP groupKey r;
                   r2 = (if HGET (jobKey jobId) ''status'' r1 = Some ''pending''
                         then HSET (jobKey jobId) ''status'' ''active'' r1 else r1)
               in (Inr (Arr [Some jobId, HGET (jobKey jobId) ''data'' r2,
                             HGET (jobKey jobId) ''group'' r2]), r2)))"

text \<open>
  Modelled from the spec: the transitions that I4 permits, \<open>pending\<close> to \<open>active\<close> and
  \<open>active\<close> to \<open>completed\<close> or \<open>failed\<close>; \<open>update_status.lua\<close>, which decides them, is not
  among the sources.
\<close>

definition permitted :: "string option \<Rightarrow> string \<Rightarrow> bool" where
  "permitted cur new =
     ((cur = Some ''pending'' \<and> new = ''active'') \<or>
      (cur = Some ''active'' \<and> (new = ''completed'' \<or> new = ''failed'')))"

text \<open>
  Modelled from the spec: \<open>update_status.lua\<close> is read by \<open>init\<close> but is not among the
  sources. Section 4.1: it writes the new status if the transition is permitted by I4
  and is a no-op otherwise.
\<close>

definition update_status_lua ::
  "string list \<Rightarrow> string list \<Rightarrow> redis \<Rightarrow> (js_error + reply) \<times> redis" where
  "update_status_lua KEYS ARGV r =
     (case ARGV of
        jobId # newStatus # _ \<Rightarrow>
          (Inr Null,
           if permitted (HGET (jobKey jobId) ''status'' r) newStatus
           then HSET (jobKey jobId) ''status'' newStatus r else r)
      | _ \<Rightarrow> (Inl (ReplyError ''ERR wrong number of arguments''), r))"

fun run_script ::
  "lua_source \<Rightarrow> string list \<Rightarrow> string list \<Rightarrow> redis \<Rightarrow> (js_error + reply) \<times> redis" where
  "run_script Enqueue_lua KEYS ARGV r = enqueue_lua KEYS ARGV r"
| "run_script Dequeue_lua KEYS ARGV r = dequeue_lua KEYS ARGV r"
| "run_script Update_status_lua KEYS ARGV r = update_status_lua KEYS ARGV r"
| "run_script Get_status_lua KEYS ARGV r = get_status_lua KEYS ARGV r"
| "run_script Empty_lua KEYS ARGV r = (Inr Null, r)"

subsection \<open>The client's commands\<close>

text \<open>
  A script or publish command is recorded, then takes the next entry of \<open>faults\<close>: it
  fails with that error, or goes through. \<open>EVALSHA\<close> with a digest that the cache does
  not hold (an \<open>undefined\<close> digest is such a one) is answered \<open>NOSCRIPT\<close>.
\<close>

definition sent :: "command \<Rightarrow> redis \<Rightarrow> redis" where
  "sent c r = r\<lparr>faults := tl (faults r), commands := commands r @ [c]\<rparr>"

definition fault :: "redis \<Rightarrow> js_error option" where
  "fault r = (case faults r of Some e # _ \<Rightarrow> Some e | _ \<Rightarrow> None)"

definition cached :: "digest option \<Rightarrow> redis \<Rightarrow> lua_source option" where
  "cached sha r = (case sha of None \<Rightarrow> None | Some d \<Rightarrow> map_of (scriptCache r) d)"

definition client_evalsha ::
  "digest option \<Rightarrow> nat \<Rightarrow> string list \<Rightarrow> redis \<Rightarrow> (js_error + reply) \<times> redis" where
  "client_evalsha sha keysCount args r =
     (case fault r of
        Some e \<Rightarrow> (Inl e, sent (EVALSHA sha) r)
      | None \<Rightarrow>
          (case cached sha r of
             None \<Rightarrow>
               (Inl (ReplyError ''NOSCRIPT No matching script. Please use EVAL.''),
                sent (EVALSHA sha) r)
           | Some src \<Rightarrow>
               if length args < keysCount
               then (Inl (ReplyError ''ERR Number of keys can't be greater than number of args''),
                     sent (EVALSHA sha) r)
               else run_script src (take keysCount args) (drop keysCount args)
                      (sent (EVALSHA sha) r)))"

definition toSource :: "lua_source option \<Rightarrow> lua_source" where
  "toSource s = (case s of None \<Rightarrow> Empty_lua | Some src \<Rightarrow> src)"

definition client_script_load ::
  "lua_source option \<Rightarrow> redis \<Rightarrow> (js_error + digest) \<times> redis" where
  "client_script_load s r =
     (case fault r of
        Some e \<Rightarrow> (Inl e, sent (SCRIPT_LOAD (toSource s)) r)
      | None \<Rightarrow>
          (Inr (SHA1 (toSource s)),
           (sent (SCRIPT_LOAD (toSource s)) r)
             \<lparr>scriptCache := AList.update (SHA1 (toSource s)) (toSource s) (scriptCache r)\<rparr>))"

definition client_publish :: "string \<Rightarrow> string \<Rightarrow> redis \<Rightarrow> (js_error + unit) \<times> redis" where
  "client_publish channel msg r =
     (case fault r of
        Some e \<Rightarrow> (Inl e, sent (PUBLISH channel msg) r)
      | None \<Rightarrow>
          (Inr (), (sent (PUBLISH channel msg) r)\<lparr>published := published r @ [(channel, msg)]\<rparr>))"

section \<open>The Queue object\<close>

text \<open>
  The job object handed to the user's callback. Its \<open>progress\<close> function is the closure
  \<open>(value) => this.updateProgress(jobId, value)\<close>; the model keeps the id and runs
  \<open>updateProgress\<close> when the callback asks for it. \<open>None\<close> is \<open>undefined\<close>; a \<open>null\<close> payload
  is \<open>JNull\<close>.
\<close>

record job =
  job_id :: "string option"
  data :: json
  groupName :: "string option"

text \<open>
  What a user callback does with \<open>(job, done)\<close>: it may report progress, call
  \<open>done(err)\<close> and go on (\<open>Done\<close>), call \<open>done(err)\<close> and await the promise it returns
  (\<open>AwaitDone\<close>), and throw. The flag says whether \<open>err\<close> is truthy.
\<close>

datatype cb_action = Progress string | Done bool | AwaitDone bool | Throw

record process_entry =
  callback :: "job \<Rightarrow> cb_action list"
  nConsumers :: nat

text \<open>
  The fields of \<open>this\<close>. \<open>shaField\<close> and \<open>scriptField\<close> are the properties read and written
  as \<open>this[`${scriptKey}Sha`]\<close> and \<open>this[`${scriptKey}Script`]\<close>, by script key. The
  JavaScript \<open>Map\<close>s are association lists. With them go the parts of the runtime that
  the methods use: the pending \<open>setTimeout\<close> callbacks of the inactivity timers by
  handle (each with the \<open>queueName\<close>, \<open>groupName\<close> and \<open>workerId\<close> its closure holds), the
  strings that successive \<open>Math.random().toString(36).substr(2, 9)\<close> calls give, the
  \<open>groupWorker\<close> calls that were started and have not returned (\<open>startGroupConsumer\<close> does
  not await them), and the store behind the connections.

  A method is a function of this state: it runs from its call to its return as one
  step. JavaScript may run another method of the object while this one waits at an
  \<open>await\<close>; such interleavings inside a method are not part of the model, except where a
  definition says so (the two halves of the timer callback below).
\<close>

record queue =
  instanceId :: string
  processMap :: "(string \<times> process_entry) list"
  pendingGroupConsumers :: "(string \<times> string \<times> string) list"
  localTimers :: "(string \<times> nat) list"
  isReady :: bool
  shaField :: "(string \<times> digest) list"
  scriptField :: "(string \<times> lua_source) list"
  timeouts :: "(nat \<times> string \<times> string \<times> string) list"
  nextTimeout :: nat
  randoms :: "nat \<Rightarrow> string"
  randomCalls :: nat
  workers :: "(string \<times> string \<times> string \<times> string) list"
  redis :: redis

definition emptyStore :: redis where
  "emptyStore =
     \<lparr>scriptCache = [], hashStore = (\<lambda>k f. None), listStore = (\<lambda>k. []),
      setStore = (\<lambda>k. []), jobCounter = 0, activeGroupConsumers = [], published = [],
      faults = [], commands = []\<rparr>"

text \<open>The constructor: \<open>instanceId\<close> is the first random string.\<close>

definition construct :: "(nat \<Rightarrow> string) \<Rightarrow> redis \<Rightarrow> queue" where
  "construct rnd r =
     \<lparr>instanceId = rnd 0, processMap = [], pendingGroupConsumers = [], localTimers = [],
      isReady = False, shaField = [], scriptField = [], timeouts = [], nextTimeout = 0,
      randoms = rnd, randomCalls = 1, workers = [], redis = r\<rparr>"

definition setTimeout :: "string \<times> string \<times> string \<Rightarrow> queue \<Rightarrow> nat \<times> queue" where
  "setTimeout closure q =
     (nextTimeout q,
      q\<lparr>timeouts := timeouts q @ [(nextTimeout q, closure)],
        nextTimeout := Suc (nextTimeout q)\<rparr>)"

definition clearTimeout :: "nat \<Rightarrow> queue \<Rightarrow> queue" where
  "clearTimeout h q = q\<lparr>timeouts := AList.delete h (timeouts q)\<rparr>"

subsection \<open>Script loading and \<open>safeEvalsha\<close>\<close>

definition loadScript :: "string \<Rightarrow> queue \<Rightarrow> (js_error + unit) \<times> queue" where
  "loadScript k q =
     (case client_script_load (map_of (scriptField q) k) (redis q) of
        (Inl e, r1) \<Rightarrow> (Inl e, q\<lparr>redis := r1\<rparr>)
      | (Inr sha, r1) \<Rightarrow> (Inr (), q\<lparr>shaField := AList.update k sha (shaField q), redis := r1\<rparr>))"

fun loadScripts :: "string list \<Rightarrow> queue \<Rightarrow> (js_error + unit) \<times> queue" where
  "loadScripts [] q = (Inr (), q)"
| "loadScripts (k # ks) q =
     (case loadScript k q of
        (Inl e, q1) \<Rightarrow> (Inl e, q1)
      | (Inr _, q1) \<Rightarrow> loadScripts ks q1)"

text \<open>
  \<open>init\<close>: the four files are read into the \<open>Script\<close> fields, each is loaded in turn and
  its digest kept in the \<open>Sha\<close> field; a failed load rejects \<open>init\<close>. Then
  \<open>listenToPubSub\<close> is called and not awaited, so \<open>init\<close> returns with \<open>isReady\<close> as it
  was. \<open>subscribed\<close> is the store confirming the subscription later: \<open>isReady\<close> is set
  and the handler for \<open>message\<close> events is registered.
\<close>

definition init :: "queue \<Rightarrow> (js_error + unit) \<times> queue" where
  "init q =
     (let q0 = q\<lparr>scriptField :=
                  AList.update ''getStatus'' Get_status_lua
                    (AList.update ''updateStatus'' Update_status_lua
                      (AList.update ''dequeue'' Dequeue_lua
                        (AList.update ''enqueue'' Enqueue_lua (scriptField q))))\<rparr>
      in case loadScripts [''enqueue'', ''dequeue'', ''updateStatus'', ''getStatus''] q0 of
           (Inl e, q1) \<Rightarrow> (Inl e, q1)
         | (Inr _, q1) \<Rightarrow> (Inr (), q1))"

definition subscribed :: "queue \<Rightarrow> queue" where
  "subscribed q = q\<lparr>isReady := True\<rparr>"

definition safeEvalsha ::
  "string \<Rightarrow> nat \<Rightarrow> string list \<Rightarrow> queue \<Rightarrow> (js_error + reply) \<times> queue" where
  "safeEvalsha scriptKey keysCount args q =
     (case client_evalsha (map_of (shaField q) scriptKey) keysCount args (redis q) of
        (Inr res, r1) \<Rightarrow> (Inr res, q\<lparr>redis := r1\<rparr>)
      | (Inl err, r1) \<Rightarrow>
          if str_includes (message err) ''NOSCRIPT'' then
            (case client_script_load (map_of (scriptField q) scriptKey) r1 of
               (Inl err2, r2) \<Rightarrow> (Inl err2, q\<lparr>redis := r2\<rparr>)
             | (Inr sha, r2) \<Rightarrow>
                 (case client_evalsha (Some sha) keysCount args r2 of
                    (res, r3) \<Rightarrow>
                      (res, q\<lparr>shaField := AList.update scriptKey sha (shaField q),
                               redis := r3\<rparr>)))
          else (Inl err, q\<lparr>redis := r1\<rparr>))"

definition toArg :: "string option \<Rightarrow> string" where
  "toArg a = (case a of None \<Rightarrow> [] | Some s \<Rightarrow> s)"

definition updateJobStatus :: "string option \<Rightarrow> string \<Rightarrow> queue \<Rightarrow> (js_error + unit) \<times> queue" where
  "updateJobStatus jobId newStatus q =
     (case safeEvalsha ''updateStatus'' 0 [toArg jobId, newStatus] q of
        (Inl e, q1) \<Rightarrow> (Inl e, q1)
      | (Inr _, q1) \<Rightarrow> (Inr (), q1))"

subsection \<open>The consumer registry\<close>

definition consumerKey :: "string \<Rightarrow> string \<Rightarrow> string \<Rightarrow> string" where
  "consumerKey qn gn wid = ''qube:'' @ qn @ '':'' @ gn @ '':'' @ wid"

definition addActiveConsumer ::
  "string \<Rightarrow> string \<Rightarrow> string \<Rightarrow> consumer_info \<Rightarrow> queue \<Rightarrow> queue" where
  "addActiveConsumer qn gn wid info q =
     q\<lparr>redis := (redis q)\<lparr>activeGroupConsumers :=
          AList.update (consumerKey qn gn wid) info (activeGroupConsumers (redis q))\<rparr>\<rparr>"

definition getActiveConsumer ::
  "string \<Rightarrow> string \<Rightarrow> string \<Rightarrow> queue \<Rightarrow> consumer_info option" where
  "getActiveConsumer qn gn wid q =
     map_of (activeGroupConsumers (redis q)) (consumerKey qn gn wid)"

definition deleteActiveConsumer :: "string \<Rightarrow> string \<Rightarrow> string \<Rightarrow> queue \<Rightarrow> queue" where
  "deleteActiveConsumer qn gn wid q =
     q\<lparr>redis := (redis q)\<lparr>activeGroupConsumers :=
          AList.delete (consumerKey qn gn wid) (activeGroupConsumers (redis q))\<rparr>\<rparr>"

definition countActiveConsumersForGroup :: "string \<Rightarrow> string \<Rightarrow> queue \<Rightarrow> nat" where
  "countActiveConsumersForGroup qn gn q =
     length (filter (\<lambda>key. startsWith key (''qube:'' @ qn @ '':'' @ gn @ '':''))
               (map fst (activeGroupConsumers (redis q))))"

text \<open>
  \<open>consumerInfo && consumerInfo.shouldStop\<close>: \<open>null\<close> (here \<open>None\<close>) when the record is
  absent, the flag otherwise.
\<close>

definition checkGroupConsumerInactivity ::
  "string \<Rightarrow> string \<Rightarrow> string \<Rightarrow> queue \<Rightarrow> bool option" where
  "checkGroupConsumerInactivity qn gn wid q =
     (case getActiveConsumer qn gn wid q of
        None \<Rightarrow> None
      | Some consumerInfo \<Rightarrow> Some (shouldStop consumerInfo))"

definition truthy_flag :: "bool option \<Rightarrow> bool" where
  "truthy_flag v = (v = Some True)"

subsection \<open>Inactivity timers\<close>

text \<open>
  The callback that \<open>startGroupConsumer\<close> and \<open>resetGroupConsumerTimer\<close> both hand to
  \<open>setTimeout\<close>, and the runtime firing the pending timer with handle \<open>h\<close>.
\<close>

definition inactivityCallback :: "string \<Rightarrow> string \<Rightarrow> string \<Rightarrow> queue \<Rightarrow> queue" where
  "inactivityCallback qn gn wid q =
     (case getActiveConsumer qn gn wid q of
        None \<Rightarrow> q
      | Some current \<Rightarrow>
          if \<not> shouldStop current
          then addActiveConsumer qn gn wid (current\<lparr>shouldStop := True\<rparr>) q
          else q)"

text \<open>
  The callback in two halves, as its \<open>await\<close> divides it: the record is read with
  \<open>getActiveConsumer\<close>; later the value that was read, if there was one and it was not
  stopping, is written back with \<open>shouldStop\<close> set. \<open>inactivityCallback\<close> is the second
  half run on what the first half reads in the same state.
\<close>

definition inactivityCallbackWrite ::
  "string \<Rightarrow> string \<Rightarrow> string \<Rightarrow> consumer_info option \<Rightarrow> queue \<Rightarrow> queue" where
  "inactivityCallbackWrite qn gn wid current q =
     (case current of
        None \<Rightarrow> q
      | Some c \<Rightarrow>
          if \<not> shouldStop c
          then addActiveConsumer qn gn wid (c\<lparr>shouldStop := True\<rparr>) q
          else q)"

definition fireTimeout :: "nat \<Rightarrow> queue \<Rightarrow> queue" where
  "fireTimeout h q =
     (case map_of (timeouts q) h of
        None \<Rightarrow> q
      | Some (qn, gn, wid) \<Rightarrow>
          inactivityCallback qn gn wid (q\<lparr>timeouts := AList.delete h (timeouts q)\<rparr>))"

definition resetGroupConsumerTimer :: "string \<Rightarrow> string \<Rightarrow> string \<Rightarrow> queue \<Rightarrow> queue" where
  "resetGroupConsumerTimer qn gn wid q =
     (case getActiveConsumer qn gn wid q of
        None \<Rightarrow> q
      | Some consumerInfo \<Rightarrow>
          if owner consumerInfo = instanceId q then
            (let q1 = (case map_of (localTimers q) (consumerKey qn gn wid) of
                         Some h \<Rightarrow> clearTimeout h q
                       | None \<Rightarrow> q);
                 (timer, q2) = setTimeout (qn, gn, wid) q1
             in q2\<lparr>localTimers := AList.update (consumerKey qn gn wid) timer (localTimers q2)\<rparr>)
          else q)"

subsection \<open>The group scheduler\<close>

definition defaultGroupKey :: "string \<Rightarrow> string \<Rightarrow> string" where
  "defaultGroupKey qn gn = ''qube:'' @ qn @ '':group:'' @ gn"

text \<open>
  \<open>startGroupConsumer\<close>; \<open>groupKey\<close> is \<open>None\<close> for \<open>null\<close>, and an empty string is falsy
  too. The worker it starts is added to \<open>workers\<close>.
\<close>

definition startGroupConsumer ::
  "string \<Rightarrow> string \<Rightarrow> string option \<Rightarrow> bool \<Rightarrow> nat \<Rightarrow> queue \<Rightarrow> queue" where
  "startGroupConsumer qn gn groupKey fromPending n q =
     (let gk = (case groupKey of
                  None \<Rightarrow> defaultGroupKey qn gn
                | Some k \<Rightarrow> if k = [] then defaultGroupKey qn gn else k);
          count = countActiveConsumersForGroup qn gn q
      in if count \<ge> n then
           (if \<not> fromPending
            then q\<lparr>pendingGroupConsumers := pendingGroupConsumers q @ [(qn, gn, gk)]\<rparr>
            else q)
         else
           (let wid = randoms q (randomCalls q);
                q1 = q\<lparr>randomCalls := Suc (randomCalls q)\<rparr>;
                q2 = addActiveConsumer qn gn wid
                       \<lparr>owner = instanceId q1, shouldStop = False, workerId = wid\<rparr> q1;
                (timer, q3) = setTimeout (qn, gn, wid) q2;
                q4 = q3\<lparr>localTimers := AList.update (consumerKey qn gn wid) timer (localTimers q3)\<rparr>
            in q4\<lparr>workers := workers q4 @ [(qn, gn, gk, wid)]\<rparr>))"

text \<open>
  \<open>processPendingConsumers\<close>: the loop ends because a start from the pending list never
  appends to it.
\<close>

function processPendingConsumers :: "nat \<Rightarrow> queue \<Rightarrow> queue" where
  "processPendingConsumers n q =
     (case pendingGroupConsumers q of
        [] \<Rightarrow> q
      | (qn, gn, gk) # rest \<Rightarrow>
          (let q1 = q\<lparr>pendingGroupConsumers := rest\<rparr>;
               count = countActiveConsumersForGroup qn gn q1
           in processPendingConsumers n
                (if count < n then startGroupConsumer qn gn (Some gk) True n q1 else q1)))"
  by pat_completeness auto
termination
  by (relation "measure (\<lambda>(n, q). length (pendingGroupConsumers q))")
     (auto simp: startGroupConsumer_def Let_def setTimeout_def addActiveConsumer_def
        split: prod.splits)

declare processPendingConsumers.simps [simp del]

text \<open>
  \<open>stopGroupConsumer\<close>. \<open>this.processMap.get(queueName).nConsumers\<close> throws when the queue
  has no registration; the record is deleted by then.
\<close>

definition stopGroupConsumer ::
  "string \<Rightarrow> string \<Rightarrow> string \<Rightarrow> queue \<Rightarrow> (js_error + unit) \<times> queue" where
  "stopGroupConsumer qn gn wid q =
     (case getActiveConsumer qn gn wid q of
        None \<Rightarrow> (Inr (), q)
      | Some consumerInfo \<Rightarrow>
          (let q1 = (if owner consumerInfo = instanceId q then
                       (case map_of (localTimers q) (consumerKey qn gn wid) of
                          Some h \<Rightarrow>
                            (clearTimeout h q)
                              \<lparr>localTimers := AList.delete (consumerKey qn gn wid) (localTimers q)\<rparr>
                        | None \<Rightarrow> q)
                     else q);
               q2 = deleteActiveConsumer qn gn wid q1
           in case map_of (processMap q2) qn of
                None \<Rightarrow> (Inl TypeError, q2)
              | Some e \<Rightarrow> (Inr (), processPendingConsumers (nConsumers e) q2)))"

subsection \<open>Jobs\<close>

definition tmpl :: "string option \<Rightarrow> string" where
  "tmpl v = (case v of None \<Rightarrow> ''undefined'' | Some s \<Rightarrow> s)"

definition updateProgress :: "string option \<Rightarrow> string \<Rightarrow> queue \<Rightarrow> queue" where
  "updateProgress jobId v q =
     q\<lparr>redis := HSET (''qube:job:'' @ tmpl jobId) ''progress'' v (redis q)\<rparr>"

text \<open>
  The user's callback runs its actions in order; \<open>runCallback\<close> says whether the
  callback threw. \<open>done\<close> returns a promise: when the callback does not await it, an
  error of the store inside \<open>done\<close> reaches nobody; when the callback awaits it, the
  error is thrown inside the callback, which ends there (a callback that catches it
  itself is one that did not await, as far as \<open>processJob\<close> can tell). The \<open>hset\<close> of
  \<open>progress\<close> is among the commands that are taken to go through.
\<close>

fun runCallback :: "job \<Rightarrow> cb_action list \<Rightarrow> queue \<Rightarrow> bool \<times> queue" where
  "runCallback j [] q = (False, q)"
| "runCallback j (Progress v # acts) q = runCallback j acts (updateProgress (job_id j) v q)"
| "runCallback j (Done err # acts) q =
     runCallback j acts
       (snd (updateJobStatus (job_id j) (if err then ''failed'' else ''completed'') q))"
| "runCallback j (AwaitDone err # acts) q =
     (case updateJobStatus (job_id j) (if err then ''failed'' else ''completed'') q of
        (Inl e, q1) \<Rightarrow> (True, q1)
      | (Inr _, q1) \<Rightarrow> runCallback j acts q1)"
| "runCallback j (Throw # acts) q = (True, q)"

definition processJob ::
  "string \<Rightarrow> job \<Rightarrow> (job \<Rightarrow> cb_action list) \<Rightarrow> queue \<Rightarrow> (js_error + unit) \<times> queue" where
  "processJob qn j fn q =
     (case runCallback j (fn j) q of
        (True, q1) \<Rightarrow> updateJobStatus (job_id j) ''failed'' q1
      | (False, q1) \<Rightarrow> (Inr (), q1))"

subsection \<open>The group worker\<close>

text \<open>
  Truthiness of a dequeue result, and the destructuring
  \<open>[jobId, jobDataRaw, groupNameFromJob] = result\<close> (a string is iterated by character).
\<close>

definition truthy :: "reply \<Rightarrow> bool" where
  "truthy r = (case r of Null \<Rightarrow> False | Str s \<Rightarrow> s \<noteq> [] | Arr _ \<Rightarrow> True)"

fun elements :: "reply \<Rightarrow> string option list" where
  "elements (Arr xs) = xs"
| "elements (Str s) = map (\<lambda>c. Some [c]) s"
| "elements Null = []"

definition nth_opt :: "string option list \<Rightarrow> nat \<Rightarrow> string option" where
  "nth_opt xs i = (if i < length xs then xs ! i else None)"

text \<open>\<open>jobDataRaw ? JSON.parse(jobDataRaw) : null\<close>\<close>

definition parseRaw :: "json_lib \<Rightarrow> string option \<Rightarrow> js_error + json" where
  "parseRaw J raw =
     (case raw of
        None \<Rightarrow> Inr JNull
      | Some s \<Rightarrow>
          if s = [] then Inr JNull
          else (case parse J s of None \<Rightarrow> Inl SyntaxError | Some v \<Rightarrow> Inr v))"

text \<open>\<open>groupNameFromJob ? groupNameFromJob.toString() : undefined\<close>\<close>

definition groupNameOf :: "string option \<Rightarrow> string option" where
  "groupNameOf g = (case g of None \<Rightarrow> None | Some s \<Rightarrow> if s = [] then None else Some s)"

text \<open>
  One pass through the body of \<open>while (true)\<close>: the job that was handed to the callback
  (\<open>Failed\<close> when \<open>processJob\<close> then raised, which ends the loop), a sleep of 1000 ms,
  the \<open>break\<close> after \<open>stopGroupConsumer\<close>, or an exception raised elsewhere in the pass,
  which ends the loop too.
\<close>

datatype outcome = Ran job | Failed job js_error | Slept | Stopped | Raised js_error

fun handed :: "outcome \<Rightarrow> job option" where
  "handed (Ran j) = Some j"
| "handed (Failed j e) = Some j"
| "handed _ = None"

definition groupWorkerIteration ::
  "json_lib \<Rightarrow> string \<Rightarrow> string \<Rightarrow> string \<Rightarrow> string \<Rightarrow> queue \<Rightarrow> outcome \<times> queue" where
  "groupWorkerIteration J qn gn gk wid q =
     (case safeEvalsha ''dequeue'' 1 [gk] q of
        (Inl e, q1) \<Rightarrow> (Raised e, q1)
      | (Inr result, q1) \<Rightarrow>
          if truthy result then
            (let q2 = resetGroupConsumerTimer qn gn wid q1;
                 jobId = nth_opt (elements result) 0;
                 jobDataRaw = nth_opt (elements result) 1;
                 groupNameFromJob = nth_opt (elements result) 2
             in case parseRaw J jobDataRaw of
                  Inl e \<Rightarrow> (Raised e, q2)
                | Inr jobDataParsed \<Rightarrow>
                    (let j = \<lparr>job_id = jobId, data = jobDataParsed,
                              groupName = groupNameOf groupNameFromJob\<rparr>
                     in case map_of (processMap q2) qn of
                          None \<Rightarrow> (Raised TypeError, q2)
                        | Some e \<Rightarrow>
                            (case processJob qn j (callback e) q2 of
                               (Inl err, q3) \<Rightarrow> (Failed j err, q3)
                             | (Inr _, q3) \<Rightarrow> (Ran j, q3))))
          else
            (let shouldStopNow = checkGroupConsumerInactivity qn gn wid q1
             in if truthy_flag shouldStopNow then
                  (case stopGroupConsumer qn gn wid q1 of
                     (Inl err, q2) \<Rightarrow> (Raised err, q2)
                   | (Inr _, q2) \<Rightarrow> (Stopped, q2))
                else (Slept, q1)))"

text \<open>
  The loop of \<open>groupWorker\<close> with nothing else running between its passes. It returns
  when the loop is left, by \<open>break\<close> or by an exception; \<open>None\<close> means that the given
  number of passes did not leave it.
\<close>

fun groupWorker ::
  "nat \<Rightarrow> json_lib \<Rightarrow> string \<Rightarrow> string \<Rightarrow> string \<Rightarrow> string \<Rightarrow> queue
     \<Rightarrow> ((js_error + unit) \<times> queue) option" where
  "groupWorker 0 J qn gn gk wid q = None"
| "groupWorker (Suc fuel) J qn gn gk wid q =
     (case groupWorkerIteration J qn gn gk wid q of
        (Stopped, q1) \<Rightarrow> Some (Inr (), q1)
      | (Raised e, q1) \<Rightarrow> Some (Inl e, q1)
      | (Failed j e, q1) \<Rightarrow> Some (Inl e, q1)
      | (Ran j, q1) \<Rightarrow> groupWorker fuel J qn gn gk wid q1
      | (Slept, q1) \<Rightarrow> groupWorker fuel J qn gn gk wid q1)"

text \<open>
  The runtime giving the \<open>i\<close>-th started worker one pass; a worker whose loop is left
  is no longer among \<open>workers\<close>.
\<close>

definition stepWorker :: "json_lib \<Rightarrow> nat \<Rightarrow> queue \<Rightarrow> queue" where
  "stepWorker J i q =
     (if i < length (workers q) then
        (case workers q ! i of
           (qn, gn, gk, wid) \<Rightarrow>
             (case groupWorkerIteration J qn gn gk wid q of
                (Stopped, q1) \<Rightarrow> q1\<lparr>workers := take i (workers q1) @ drop (Suc i) (workers q1)\<rparr>
              | (Raised e, q1) \<Rightarrow> q1\<lparr>workers := take i (workers q1) @ drop (Suc i) (workers q1)\<rparr>
              | (Failed j e, q1) \<Rightarrow> q1\<lparr>workers := take i (workers q1) @ drop (Suc i) (workers q1)\<rparr>
              | (Ran j, q1) \<Rightarrow> q1
              | (Slept, q1) \<Rightarrow> q1))
      else q)"

subsection \<open>Notifications\<close>

text \<open>
  The handler that \<open>listenToPubSub\<close> registers for \<open>message\<close> events. It returns the error
  it raised, if any, and the lines it logged. Destructuring \<open>null\<close> throws; a property
  that is missing is \<open>undefined\<close>. The keys of \<open>processMap\<close> are strings, so only a string
  \<open>queueName\<close> can be found there.
\<close>

datatype logline =
    Info_notification string string
  | Info_callback_found string
  | Warn_no_callback string

definition onMessage ::
  "json_lib \<Rightarrow> string \<Rightarrow> string \<Rightarrow> queue \<Rightarrow> (js_error + unit) \<times> logline list \<times> queue" where
  "onMessage J channel msg q =
     (if channel = ''QUEUE:NEWJOB'' then
        (case parse J msg of
           None \<Rightarrow> (Inl SyntaxError, [], q)
         | Some JNull \<Rightarrow> (Inl TypeError, [], q)
         | Some v \<Rightarrow>
             (let queueName = getProp v ''queueName'';
                  gName = getProp v ''groupName'';
                  l1 = Info_notification (template queueName) (template gName)
              in case (case queueName of
                         Some (JStr s) \<Rightarrow> map_of (processMap q) s
                       | _ \<Rightarrow> None) of
                   Some e \<Rightarrow>
                     (Inr (), [l1, Info_callback_found (template queueName)],
                      startGroupConsumer (template queueName) (template gName) None False
                        (nConsumers e) q)
                 | None \<Rightarrow> (Inr (), [l1, Warn_no_callback (template queueName)], q)))
      else (Inr (), [], q))"

subsection \<open>\<open>add\<close> and \<open>process\<close>\<close>

definition add ::
  "json_lib \<Rightarrow> string \<Rightarrow> string \<Rightarrow> json \<Rightarrow> queue \<Rightarrow> (js_error + reply) \<times> queue" where
  "add J qn gn d q =
     (let queueKey = ''qube:'' @ qn @ '':groups'';
          groupKey = ''qube:'' @ qn @ '':group:'' @ gn
      in case safeEvalsha ''enqueue'' 2 [queueKey, groupKey, stringify J d, gn] q of
           (Inl e, q1) \<Rightarrow> (Inl e, q1)
         | (Inr jobId, q1) \<Rightarrow>
             (case client_publish ''QUEUE:NEWJOB''
                     (stringify J (JObj [(''queueName'', JStr qn), (''groupName'', JStr gn)]))
                     (redis q1) of
                (Inl e, r2) \<Rightarrow> (Inl e, q1\<lparr>redis := r2\<rparr>)
              | (Inr _, r2) \<Rightarrow> (Inr jobId, q1\<lparr>redis := r2\<rparr>)))"

text \<open>
  \<open>groupName.split(prefix)[1]\<close> for a \<open>groupName\<close> that starts with \<open>prefix\<close>: what follows
  the prefix, up to its next occurrence.
\<close>

fun takeUntil :: "string \<Rightarrow> string \<Rightarrow> string" where
  "takeUntil sep [] = []"
| "takeUntil sep (c # cs) = (if prefix sep (c # cs) then [] else c # takeUntil sep cs)"

definition normaliseGroup :: "string \<Rightarrow> string \<Rightarrow> string" where
  "normaliseGroup qn g =
     (let p = ''qube:'' @ qn @ '':group:''
      in if startsWith g p then takeUntil p (drop (length p) g) else g)"

definition process :: "string \<Rightarrow> nat \<Rightarrow> (job \<Rightarrow> cb_action list) \<Rightarrow> queue \<Rightarrow> queue" where
  "process qn n cb q =
     (let q1 = q\<lparr>processMap := AList.update qn \<lparr>callback = cb, nConsumers = n\<rparr> (processMap q)\<rparr>;
          groups = setStore (redis q1) (''qube:'' @ qn @ '':groups'')
      in fold (\<lambda>g. (startGroupConsumer qn (normaliseGroup qn g) None False n) ^^ n) groups q1)"

section \<open>Example states\<close>

text \<open>
  A node whose random strings are \<open>w0\<close>, \<open>w1\<close>, ... on an empty store, and the same node
  after one worker was started for group \<open>G\<close> of queue \<open>Q\<close>.
\<close>

definition node0 :: queue where
  "node0 = construct (\<lambda>n. ''w'' @ decimal n) emptyStore"

definition node1 :: queue where
  "node1 = startGroupConsumer ''Q'' ''G'' None False 1 node0"

text \<open>
  A JSON library for the examples: it writes strings, \<open>null\<close> and the notification
  object as \<open>JSON.stringify\<close> does, and \<open>NaN\<close> as the text \<open>null\<close>, as \<open>JSON.stringify\<close>
  does too (the other values, which the examples do not use, it writes as \<open>null\<close> as
  well); it reads back the texts of the values listed in \<open>knownValues\<close>, and any other
  text is malformed to it.
\<close>

definition quoted :: "string \<Rightarrow> string" where
  "quoted s = CHR 0x22 # s @ [CHR 0x22]"

fun exampleStringify :: "json \<Rightarrow> string" where
  "exampleStringify (JStr s) = quoted s"
| "exampleStringify (JObj [(k1, JStr a), (k2, JStr b)]) =
     ''{'' @ quoted k1 @ '':'' @ quoted a @ '','' @ quoted k2 @ '':'' @ quoted b @ ''}''"
| "exampleStringify JNaN = ''null''"
| "exampleStringify _ = ''null''"

definition knownValues :: "json list" where
  "knownValues =
     [JNull, JStr ''Hola mundo 1'', JStr ''Hola mundo 2'',
      JObj [(''queueName'', JStr ''A''), (''groupName'', JStr ''h'')],
      JObj [(''queueName'', JStr ''B''), (''groupName'', JStr ''g'')],
      JObj [(''queueName'', JStr ''Q''), (''groupName'', JStr ''G'')]]"

definition exampleJson :: json_lib where
  "exampleJson =
     \<lparr>parse = (\<lambda>s. find (\<lambda>v. exampleStringify v = s) knownValues),
      stringify = exampleStringify\<rparr>"

text \<open>\<open>node0\<close> after \<open>init\<close>.\<close>

definition readyNode :: queue where
  "readyNode = snd (init node0)"

text \<open>\<open>readyNode\<close> after the store's script cache was flushed.\<close>

definition flushedNode :: queue where
  "flushedNode = readyNode\<lparr>redis := (redis readyNode)\<lparr>scriptCache := []\<rparr>\<rparr>"

text \<open>\<open>readyNode\<close> after \<open>add("Q", "G", "Hola mundo 1")\<close>.\<close>

definition enqueuedNode :: queue where
  "enqueuedNode = snd (add exampleJson ''Q'' ''G'' (JStr ''Hola mundo 1'') readyNode)"

text \<open>
  \<open>readyNode\<close> with a connection that lets the next command through and fails the one
  after it.
\<close>

definition publishFailNode :: queue where
  "publishFailNode =
     readyNode\<lparr>redis := (redis readyNode)
       \<lparr>faults := [None, Some (ReplyError ''Connection is closed.'')]\<rparr>\<rparr>"

section \<open>Predicates of the claims\<close>

text \<open>The consumer record of the worker exists and its \<open>owner\<close> is this node.\<close>

definition ownsRecord :: "string \<Rightarrow> string \<Rightarrow> string \<Rightarrow> queue \<Rightarrow> bool" where
  "ownsRecord qn gn wid q =
     (case getActiveConsumer qn gn wid q of
        None \<Rightarrow> False
      | Some consumerInfo \<Rightarrow> owner consumerInfo = instanceId q)"

text \<open>
  Nothing is waiting at the group key and the store answers: the digest held for
  \<open>dequeue\<close> is that of the dequeue script and is cached, no fault is due, and the list
  is empty.
\<close>

definition quietGroup :: "string \<Rightarrow> queue \<Rightarrow> bool" where
  "quietGroup gk q =
     (cached (map_of (shaField q) ''dequeue'') (redis q) = Some Dequeue_lua \<and>
      faults (redis q) = [] \<and> listStore (redis q) gk = [])"

text \<open>The data that the scripts read and write.\<close>

definition dataOf ::
  "redis \<Rightarrow> (string \<Rightarrow> string \<Rightarrow> string option) \<times> (string \<Rightarrow> string list) \<times>
     (string \<Rightarrow> string list) \<times> nat" where
  "dataOf r = (hashStore r, listStore r, setStore r, jobCounter r)"

text \<open>
  The node holds the digest and the source of script \<open>src\<close> under key \<open>k\<close>, and the
  store's cache holds that source under the digest or nothing.
\<close>

definition scriptReady :: "string \<Rightarrow> lua_source \<Rightarrow> queue \<Rightarrow> bool" where
  "scriptReady k src q =
     (map_of (shaField q) k = Some (SHA1 src) \<and> map_of (scriptField q) k = Some src \<and>
      (cached (Some (SHA1 src)) (redis q) = None \<or>
       cached (Some (SHA1 src)) (redis q) = Some src))"

section \<open>Sequences of script calls\<close>

text \<open>
  Calls of the four scripts in the order in which the store runs them (a script is one
  step of the store, so calls from several nodes are such a sequence). \<open>appended G\<close>
  lists the job ids that the enqueue calls on group key \<open>G\<close> returned, in order;
  \<open>removed G\<close> lists the job ids that the dequeue calls on \<open>G\<close> returned, in order.
\<close>

datatype store_op =
    Enqueue string string string string
  | Dequeue string
  | UpdateStatus string string
  | GetStatus string

fun apply_op :: "store_op \<Rightarrow> redis \<Rightarrow> (js_error + reply) \<times> redis" where
  "apply_op (Enqueue queueKey groupKey payloadJSON gName) r =
     run_script Enqueue_lua [queueKey, groupKey] [payloadJSON, gName] r"
| "apply_op (Dequeue groupKey) r = run_script Dequeue_lua [groupKey] [] r"
| "apply_op (UpdateStatus jobId newStatus) r = run_script Update_status_lua [] [jobId, newStatus] r"
| "apply_op (GetStatus jobId) r = run_script Get_status_lua [] [jobId] r"

fun run_ops :: "store_op list \<Rightarrow> redis \<Rightarrow> redis" where
  "run_ops [] r = r"
| "run_ops (c # cs) r = run_ops cs (snd (apply_op c r))"

fun enqueued_id :: "string \<Rightarrow> store_op \<Rightarrow> js_error + reply \<Rightarrow> string list" where
  "enqueued_id G (Enqueue queueKey groupKey payloadJSON gName) (Inr (Str jobId)) =
     (if groupKey = G then [jobId] else [])"
| "enqueued_id G _ _ = []"

fun dequeued_id :: "string \<Rightarrow> store_op \<Rightarrow> js_error + reply \<Rightarrow> string list" where
  "dequeued_id G (Dequeue groupKey) (Inr (Arr (Some jobId # _))) =
     (if groupKey = G then [jobId] else [])"
| "dequeued_id G _ _ = []"

fun appended :: "string \<Rightarrow> store_op list \<Rightarrow> redis \<Rightarrow> string list" where
  "appended G [] r = []"
| "appended G (c # cs) r =
     enqueued_id G c (fst (apply_op c r)) @ appended G cs (snd (apply_op c r))"

fun removed :: "string \<Rightarrow> store_op list \<Rightarrow> redis \<Rightarrow> string list" where
  "removed G [] r = []"
| "removed G (c # cs) r =
     dequeued_id G c (fst (apply_op c r)) @ removed G cs (snd (apply_op c r))"

section \<open>States and predicates of the round trip\<close>

text \<open>
  The job record of the \<open>c\<close>-th job id holds payload \<open>p\<close> and group name \<open>g\<close>, and the
  counter has passed \<open>c\<close>.
\<close>

definition recordKept :: "nat \<Rightarrow> string \<Rightarrow> string \<Rightarrow> redis \<Rightarrow> bool" where
  "recordKept c p g r =
     (c \<le> jobCounter r \<and> HGET (jobKey (decimal c)) ''data'' r = Some p \<and>
      HGET (jobKey (decimal c)) ''group'' r = Some g)"

text \<open>
  \<open>readyNode\<close> after \<open>process("Q", 1, callback)\<close> with a callback that calls \<open>done(null)\<close>.
\<close>

definition consumerNode :: queue where
  "consumerNode = process ''Q'' 1 (\<lambda>j. [Done False]) readyNode"

section \<open>A node with two queues\<close>

text \<open>
  The runtime delivering the \<open>i\<close>-th published message to the node's handler. The handler
  is run as a whole: its \<open>await\<close>s are not points where another operation of the node
  comes in between.
\<close>

definition deliver :: "json_lib \<Rightarrow> nat \<Rightarrow> queue \<Rightarrow> queue" where
  "deliver J i q =
     (if i < length (published (redis q)) then
        (case published (redis q) ! i of
           (channel, msg) \<Rightarrow> snd (snd (onMessage J channel msg q)))
      else q)"

text \<open>
  \<open>process("B", 1, cb)\<close> and \<open>process("A", 2, cb)\<close> on \<open>readyNode\<close>. Then: a job is added
  to group \<open>h\<close> of \<open>A\<close>, its notification starts worker \<open>w1\<close>, which processes the job; a
  job is added to group \<open>g\<close> of \<open>B\<close>, its notification starts worker \<open>w2\<close>, which
  processes the job; another job is added to \<open>g\<close>, and its notification finds the quota
  of \<open>B\<close> full and is queued as pending; the inactivity timer of \<open>w1\<close> fires; \<open>w1\<close> polls,
  finds nothing, and stops.
\<close>

definition twoQueues :: queue where
  "twoQueues = process ''A'' 2 (\<lambda>j. [Done False]) (process ''B'' 1 (\<lambda>j. [Done False]) readyNode)"

definition drainScenario :: queue where
  "drainScenario =
     (let s1 = snd (add exampleJson ''A'' ''h'' (JStr ''Hola mundo 1'') twoQueues);
          s2 = deliver exampleJson 0 s1;
          s3 = stepWorker exampleJson 0 s2;
          s4 = snd (add exampleJson ''B'' ''g'' (JStr ''Hola mundo 2'') s3);
          s5 = deliver exampleJson 1 s4;
          s6 = stepWorker exampleJson 1 s5;
          s7 = snd (add exampleJson ''B'' ''g'' (JStr ''Hola mundo 2'') s6);
          s8 = deliver exampleJson 2 s7;
          s9 = fireTimeout 1 s8
      in stepWorker exampleJson 0 s9)"

section \<open>Timers and owned records\<close>

text \<open>
  \<open>localTimers\<close> has an entry for the key; the consumer record at the key exists and
  its owner is this node; it exists, its owner is this node and it is not stopping.
  \<open>I5\<close> is the invariant as the spec states it, \<open>timersMatchOwnedRecords\<close> the one
  without the \<open>shouldStop\<close> part. Both are checked on the keys that occur in
  \<open>localTimers\<close> or in the registry; for any other key both sides are false.
\<close>

definition hasTimer :: "queue \<Rightarrow> string \<Rightarrow> bool" where
  "hasTimer q k = (map_of (localTimers q) k \<noteq> None)"

definition ownedRecord :: "queue \<Rightarrow> string \<Rightarrow> bool" where
  "ownedRecord q k =
     (case map_of (activeGroupConsumers (redis q)) k of
        None \<Rightarrow> False
      | Some consumerInfo \<Rightarrow> owner consumerInfo = instanceId q)"

definition runningRecord :: "queue \<Rightarrow> string \<Rightarrow> bool" where
  "runningRecord q k =
     (case map_of (activeGroupConsumers (redis q)) k of
        None \<Rightarrow> False
      | Some consumerInfo \<Rightarrow> owner consumerInfo = instanceId q \<and> \<not> shouldStop consumerInfo)"

definition knownKeys :: "queue \<Rightarrow> string list" where
  "knownKeys q = map fst (localTimers q) @ map fst (activeGroupConsumers (redis q))"

definition I5 :: "queue \<Rightarrow> bool" where
  "I5 q = list_all (\<lambda>k. hasTimer q k = runningRecord q k) (knownKeys q)"


text \<open>
  The same with the implication from the record to the timer only: every record that
  this node owns has its entry in \<open>localTimers\<close>.
\<close>

definition ownedHaveTimers :: "queue \<Rightarrow> bool" where
  "ownedHaveTimers q = list_all (\<lambda>k. ownedRecord q k \<longrightarrow> hasTimer q k) (knownKeys q)"


section \<open>Runs of a node beside the other clients of the store\<close>

text \<open>
  What happens to a node and to the store behind it, one step at a time. The node's own
  operations are \<open>init\<close>, the subscription being confirmed, \<open>process\<close>, \<open>add\<close>, the
  delivery of a published message to the handler, one pass of a started worker, an
  inactivity timer firing, and a call from outside the class of \<open>startGroupConsumer\<close>,
  \<open>resetGroupConsumerTimer\<close> or \<open>stopGroupConsumer\<close>, which are methods like the others.
  Each is taken as a whole: two operations of the node are not interleaved at their
  \<open>await\<close>s.

  The other clients of the store (other nodes running this class, a reaper, an
  operator) do the rest: they call one of the scripts, write a progress value as
  \<open>updateProgress\<close> does, write or delete a field of \<open>activeGroupConsumers\<close>, publish a
  message, load a script, or flush the script cache. Their commands travel on their own
  connections, so \<open>faults\<close> and \<open>commands\<close>, which are this node's, stay as they are.
\<close>

datatype event =
    Init
  | Subscribed
  | Process string nat "job \<Rightarrow> cb_action list"
  | Add string string json
  | Deliver nat
  | StepWorker nat
  | FireTimeout nat
  | Start string string "string option" bool nat
  | Reset string string string
  | Stop string string string
  | OtherScript store_op
  | OtherProgress string string
  | OtherHset string consumer_info
  | OtherHdel string
  | OtherPublish string string
  | OtherLoad lua_source
  | OtherFlush

fun step :: "json_lib \<Rightarrow> event \<Rightarrow> queue \<Rightarrow> queue" where
  "step J Init q = snd (init q)"
| "step J Subscribed q = subscribed q"
| "step J (Process qn n cb) q = process qn n cb q"
| "step J (Add qn gn d) q = snd (add J qn gn d q)"
| "step J (Deliver i) q = deliver J i q"
| "step J (StepWorker i) q = stepWorker J i q"
| "step J (FireTimeout h) q = fireTimeout h q"
| "step J (Start qn gn gk fromPending n) q = startGroupConsumer qn gn gk fromPending n q"
| "step J (Reset qn gn wid) q = resetGroupConsumerTimer qn gn wid q"
| "step J (Stop qn gn wid) q = snd (stopGroupConsumer qn gn wid q)"
| "step J (OtherScript c) q = q\<lparr>redis := snd (apply_op c (redis q))\<rparr>"
| "step J (OtherProgress jobId v) q =
     q\<lparr>redis := HSET (''qube:job:'' @ jobId) ''progress'' v (redis q)\<rparr>"
| "step J (OtherHset k info) q =
     q\<lparr>redis := (redis q)\<lparr>activeGroupConsumers :=
          AList.update k info (activeGroupConsumers (redis q))\<rparr>\<rparr>"
| "step J (OtherHdel k) q =
     q\<lparr>redis := (redis q)\<lparr>activeGroupConsumers :=
          AList.delete k (activeGroupConsumers (redis q))\<rparr>\<rparr>"
| "step J (OtherPublish channel msg) q =
     q\<lparr>redis := (redis q)\<lparr>published := published (redis q) @ [(channel, msg)]\<rparr>\<rparr>"
| "step J (OtherLoad src) q =
     q\<lparr>redis := (redis q)\<lparr>scriptCache := AList.update (SHA1 src) src (scriptCache (redis q))\<rparr>\<rparr>"
| "step J OtherFlush q = q\<lparr>redis := (redis q)\<lparr>scriptCache := []\<rparr>\<rparr>"

fun run :: "json_lib \<Rightarrow> event list \<Rightarrow> queue \<Rightarrow> queue" where
  "run J [] q = q"
| "run J (ev # evs) q = run J evs (step J ev q)"






section \<open>A run with progress reports\<close>

text \<open>
  \<open>readyNode\<close> after \<open>process("A", 1, cb)\<close> with a callback that calls \<open>done(null)\<close> and
  \<open>process("B", 1, cb)\<close> with a callback that reports progress 50 and awaits
  \<open>done(null)\<close>. \<open>reportedNode\<close> is that node after \<open>add("A", "h", "Hola mundo 1")\<close> and
  \<open>laterEvents\<close>: the notification of the job is delivered and starts worker \<open>w1\<close>; a job
  is added to group \<open>g\<close> of \<open>B\<close>, its notification starts worker \<open>w2\<close>, which processes
  it; another client enqueues into a third group and writes a progress value for job 1.
\<close>

definition reportingNode :: queue where
  "reportingNode =
     process ''B'' 1 (\<lambda>j. [Progress ''50'', AwaitDone False])
       (process ''A'' 1 (\<lambda>j. [Done False]) readyNode)"

definition laterEvents :: "event list" where
  "laterEvents =
     [Deliver 0, Add ''B'' ''g'' (JStr ''Hola mundo 2''), Deliver 1, StepWorker 1,
      OtherScript (Enqueue ''qube:Q:groups'' ''qube:Q:group:H'' ''null'' ''H''),
      OtherProgress ''1'' ''99'']"

definition reportedNode :: queue where
  "reportedNode =
     run exampleJson laterEvents (snd (add exampleJson ''A'' ''h'' (JStr ''Hola mundo 1'') reportingNode))"

section \<open>The store commands, field by field\<close>

text \<open>What each primitive does to each field of the store.\<close>

lemma HSET_scriptCache [simp]: "scriptCache (HSET k f v r) = scriptCache r"
  by (simp add: HSET_def)

lemma HSET_listStore [simp]: "listStore (HSET k f v r) = listStore r"
  by (simp add: HSET_def)

lemma HSET_setStore [simp]: "setStore (HSET k f v r) = setStore r"
  by (simp add: HSET_def)

lemma HSET_jobCounter [simp]: "jobCounter (HSET k f v r) = jobCounter r"
  by (simp add: HSET_def)

lemma HSET_published [simp]: "published (HSET k f v r) = published r"
  by (simp add: HSET_def)

lemma HSET_faults [simp]: "faults (HSET k f v r) = faults r"
  by (simp add: HSET_def)

lemma RPUSH_scriptCache [simp]: "scriptCache (RPUSH k v r) = scriptCache r"
  by (simp add: RPUSH_def)

lemma RPUSH_hashStore [simp]: "hashStore (RPUSH k v r) = hashStore r"
  by (simp add: RPUSH_def)

lemma RPUSH_setStore [simp]: "setStore (RPUSH k v r) = setStore r"
  by (simp add: RPUSH_def)

lemma RPUSH_jobCounter [simp]: "jobCounter (RPUSH k v r) = jobCounter r"
  by (simp add: RPUSH_def)

lemma RPUSH_published [simp]: "published (RPUSH k v r) = published r"
  by (simp add: RPUSH_def)

lemma RPUSH_faults [simp]: "faults (RPUSH k v r) = faults r"
  by (simp add: RPUSH_def)

lemma SADD_scriptCache [simp]: "scriptCache (SADD k v r) = scriptCache r"
  by (simp add: SADD_def)

lemma SADD_hashStore [simp]: "hashStore (SADD k v r) = hashStore r"
  by (simp add: SADD_def)

lemma SADD_listStore [simp]: "listStore (SADD k v r) = listStore r"
  by (simp add: SADD_def)

lemma SADD_jobCounter [simp]: "jobCounter (SADD k v r) = jobCounter r"
  by (simp add: SADD_def)

lemma SADD_published [simp]: "published (SADD k v r) = published r"
  by (simp add: SADD_def)

lemma SADD_faults [simp]: "faults (SADD k v r) = faults r"
  by (simp add: SADD_def)

lemma LPOP_scriptCache [simp]: "scriptCache (LPOP k r) = scriptCache r"
  by (simp add: LPOP_def)

lemma LPOP_hashStore [simp]: "hashStore (LPOP k r) = hashStore r"
  by (simp add: LPOP_def)

lemma LPOP_setStore [simp]: "setStore (LPOP k r) = setStore r"
  by (simp add: LPOP_def)

lemma LPOP_jobCounter [simp]: "jobCounter (LPOP k r) = jobCounter r"
  by (simp add: LPOP_def)

lemma LPOP_published [simp]: "published (LPOP k r) = published r"
  by (simp add: LPOP_def)

lemma LPOP_faults [simp]: "faults (LPOP k r) = faults r"
  by (simp add: LPOP_def)

lemma sent_scriptCache [simp]: "scriptCache (sent c r) = scriptCache r"
  by (simp add: sent_def)

lemma sent_hashStore [simp]: "hashStore (sent c r) = hashStore r"
  by (simp add: sent_def)

lemma sent_listStore [simp]: "listStore (sent c r) = listStore r"
  by (simp add: sent_def)

lemma sent_setStore [simp]: "setStore (sent c r) = setStore r"
  by (simp add: sent_def)

lemma sent_jobCounter [simp]: "jobCounter (sent c r) = jobCounter r"
  by (simp add: sent_def)

lemma sent_published [simp]: "published (sent c r) = published r"
  by (simp add: sent_def)

lemma HSET_hashStore [simp]:
  "hashStore (HSET k f v r) = (hashStore r)(k := (hashStore r k)(f \<mapsto> v))"
  by (simp add: HSET_def)

lemma RPUSH_listStore [simp]:
  "listStore (RPUSH k v r) = (listStore r)(k := listStore r k @ [v])"
  by (simp add: RPUSH_def)

lemma LPOP_listStore [simp]:
  "listStore (LPOP k r) = (listStore r)(k := tl (listStore r k))"
  by (simp add: LPOP_def)

lemma SADD_setStore:
  "setStore (SADD k v r) =
     (if v \<in> set (setStore r k) then setStore r else (setStore r)(k := setStore r k @ [v]))"
  by (simp add: SADD_def)

lemma faults_sent [simp]: "faults (sent c r) = tl (faults r)"
  by (simp add: sent_def)

lemma cached_sent [simp]: "cached sha (sent c r) = cached sha r"
  by (simp add: cached_def split: option.splits)

lemma HGET_HSET [simp]:
  "HGET k' f' (HSET k f v r) = (if k' = k \<and> f' = f then Some v else HGET k' f' r)"
  by (simp add: HGET_def)

lemma HGET_RPUSH [simp]: "HGET k' f' (RPUSH k v r) = HGET k' f' r"
  by (simp add: HGET_def)

lemma HGET_SADD [simp]: "HGET k' f' (SADD k v r) = HGET k' f' r"
  by (simp add: HGET_def)

lemma HGET_LPOP [simp]: "HGET k' f' (LPOP k r) = HGET k' f' r"
  by (simp add: HGET_def)

lemma HGET_sent [simp]: "HGET k' f' (sent c r) = HGET k' f' r"
  by (simp add: HGET_def)

section \<open>The inactivity timer is reset by the owner of an existing record\<close>

text \<open>
  C5, as the code has it. \<open>resetGroupConsumerTimer\<close> reschedules the inactivity timer
  exactly when the consumer record exists and its owner is this node, whatever its
  \<open>shouldStop\<close> flag says: a fresh timeout with the worker's closure is pending, it is the
  handle that \<open>localTimers\<close> holds for the consumer key, the handle held before (if it
  is another one) is no longer pending, and the store is untouched. In every other case (no record, or a
  record of another owner) the whole state, timers included, is unchanged.
\<close>

theorem resetGroupConsumerTimer_owner_only:
  "if ownsRecord qn gn wid q
   then (nextTimeout q, (qn, gn, wid)) \<in> set (timeouts (resetGroupConsumerTimer qn gn wid q)) \<and>
        map_of (localTimers (resetGroupConsumerTimer qn gn wid q)) (consumerKey qn gn wid)
          = Some (nextTimeout q) \<and>
        (case map_of (localTimers q) (consumerKey qn gn wid) of
           None \<Rightarrow> True
         | Some h \<Rightarrow> h = nextTimeout q \<or>
                    h \<notin> fst ` set (timeouts (resetGroupConsumerTimer qn gn wid q))) \<and>
        redis (resetGroupConsumerTimer qn gn wid q) = redis q
   else resetGroupConsumerTimer qn gn wid q = q"
  by (auto simp: ownsRecord_def resetGroupConsumerTimer_def setTimeout_def clearTimeout_def
      Let_def update_conv' delete_notin_dom split: option.splits)

text \<open>
  Both branches at work on \<open>node1\<close>: the worker \<open>w1\<close> that the node owns gets the fresh
  handle 1, and a reset for \<open>w2\<close>, which has no record, changes nothing.
\<close>

theorem resetGroupConsumerTimer_owner_only_witness:
  "ownsRecord ''Q'' ''G'' ''w1'' node1 \<and>
   map_of (localTimers (resetGroupConsumerTimer ''Q'' ''G'' ''w1'' node1))
     (consumerKey ''Q'' ''G'' ''w1'') = Some 1 \<and>
   \<not> ownsRecord ''Q'' ''G'' ''w2'' node1 \<and>
   resetGroupConsumerTimer ''Q'' ''G'' ''w2'' node1 = node1"
proof -
  have a: "ownsRecord ''Q'' ''G'' ''w1'' node1" by code_simp
  have b: "\<not> ownsRecord ''Q'' ''G'' ''w2'' node1" by code_simp
  have n: "nextTimeout node1 = 1" by code_simp
  from a n resetGroupConsumerTimer_owner_only [of "''Q''" "''G''" "''w1''" node1]
  have c: "map_of (localTimers (resetGroupConsumerTimer ''Q'' ''G'' ''w1'' node1))
             (consumerKey ''Q'' ''G'' ''w1'') = Some 1"
    by simp
  from b resetGroupConsumerTimer_owner_only [of "''Q''" "''G''" "''w2''" node1]
  have d: "resetGroupConsumerTimer ''Q'' ''G'' ''w2'' node1 = node1" by simp
  from a b c d show ?thesis by simp
qed

text \<open>
  C5 as the claim states it fails: once the timer of \<open>w1\<close> has fired, the record is
  stopping (\<open>shouldStop\<close> is true) and no timeout is pending, and the reset still
  schedules a new timeout and replaces the handle in \<open>localTimers\<close>.
\<close>

theorem resetGroupConsumerTimer_resets_stopping_record:
  "getActiveConsumer ''Q'' ''G'' ''w1'' (fireTimeout 0 node1)
     = Some \<lparr>owner = instanceId (fireTimeout 0 node1), shouldStop = True, workerId = ''w1''\<rparr> \<and>
   timeouts (fireTimeout 0 node1) = [] \<and>
   localTimers (fireTimeout 0 node1) = [(''qube:Q:G:w1'', 0)] \<and>
   timeouts (resetGroupConsumerTimer ''Q'' ''G'' ''w1'' (fireTimeout 0 node1))
     = [(1, ''Q'', ''G'', ''w1'')] \<and>
   localTimers (resetGroupConsumerTimer ''Q'' ''G'' ''w1'' (fireTimeout 0 node1))
     = [(''qube:Q:G:w1'', 1)]"
  by code_simp

section \<open>What the store commands leave alone\<close>

text \<open>
  No script and no script command touches the hash \<open>activeGroupConsumers\<close>, and
  \<open>safeEvalsha\<close> changes nothing of the node but the \<open>Sha\<close> fields and the store.
\<close>

lemma HSET_registry [simp]: "activeGroupConsumers (HSET k f v r) = activeGroupConsumers r"
  by (simp add: HSET_def)

lemma RPUSH_registry [simp]: "activeGroupConsumers (RPUSH k v r) = activeGroupConsumers r"
  by (simp add: RPUSH_def)

lemma SADD_registry [simp]: "activeGroupConsumers (SADD k v r) = activeGroupConsumers r"
  by (simp add: SADD_def)

lemma LPOP_registry [simp]: "activeGroupConsumers (LPOP k r) = activeGroupConsumers r"
  by (simp add: LPOP_def)

lemma sent_registry [simp]: "activeGroupConsumers (sent c r) = activeGroupConsumers r"
  by (simp add: sent_def)

lemma enqueue_lua_registry:
  "activeGroupConsumers (snd (enqueue_lua K A r)) = activeGroupConsumers r"
  by (simp add: enqueue_lua_def Let_def split: list.splits)

lemma dequeue_lua_registry:
  "activeGroupConsumers (snd (dequeue_lua K A r)) = activeGroupConsumers r"
  by (simp add: dequeue_lua_def Let_def split: list.splits)

lemma update_status_lua_registry:
  "activeGroupConsumers (snd (update_status_lua K A r)) = activeGroupConsumers r"
  by (simp add: update_status_lua_def split: list.splits)

lemma get_status_lua_registry:
  "activeGroupConsumers (snd (get_status_lua K A r)) = activeGroupConsumers r"
  by (simp add: get_status_lua_def split: list.splits)

lemma run_script_registry:
  "activeGroupConsumers (snd (run_script src K A r)) = activeGroupConsumers r"
  by (cases src)
     (simp_all add: enqueue_lua_registry dequeue_lua_registry update_status_lua_registry
        get_status_lua_registry)

lemma client_evalsha_registry:
  "activeGroupConsumers (snd (client_evalsha sha n args r)) = activeGroupConsumers r"
  by (simp add: client_evalsha_def run_script_registry split: option.splits)

lemma client_script_load_registry:
  "activeGroupConsumers (snd (client_script_load s r)) = activeGroupConsumers r"
  by (simp add: client_script_load_def split: option.splits)


lemma safeEvalsha_registry:
  "activeGroupConsumers (redis (snd (safeEvalsha k n args q))) = activeGroupConsumers (redis q)"
proof -
  have a: "activeGroupConsumers r' = activeGroupConsumers r"
    if "client_evalsha sha n args r = (x, r')" for sha r x r'
    using client_evalsha_registry [of sha n args r] that by simp
  have b: "activeGroupConsumers r' = activeGroupConsumers r"
    if "client_script_load s r = (x, r')" for s r x r'
    using client_script_load_registry [of s r] that by simp
  show ?thesis
    by (auto simp: safeEvalsha_def split: prod.splits sum.splits dest!: a b)
qed

section \<open>A worker whose record is absent keeps running\<close>

lemma safeEvalsha_getActiveConsumer:
  "getActiveConsumer qn gn wid (snd (safeEvalsha k n args q)) = getActiveConsumer qn gn wid q"
  by (simp add: getActiveConsumer_def safeEvalsha_registry)

lemma updateJobStatus_snd:
  "snd (updateJobStatus j s q) = snd (safeEvalsha ''updateStatus'' 0 [toArg j, s] q)"
  by (simp add: updateJobStatus_def split: prod.splits sum.splits)

lemma updateJobStatus_getActiveConsumer:
  "getActiveConsumer qn gn wid (snd (updateJobStatus j s q)) = getActiveConsumer qn gn wid q"
  by (simp add: updateJobStatus_snd safeEvalsha_getActiveConsumer)

lemma updateProgress_getActiveConsumer:
  "getActiveConsumer qn gn wid (updateProgress j v q) = getActiveConsumer qn gn wid q"
  by (simp add: getActiveConsumer_def updateProgress_def)

text \<open>
  What \<open>updateJobStatus\<close> and \<open>updateProgress\<close> leave as it was, a callback leaves as it
  was.
\<close>

lemma runCallback_preserves:
  assumes st: "\<And>i s q. P q \<Longrightarrow> P (snd (updateJobStatus i s q))"
    and pr: "\<And>i v q. P q \<Longrightarrow> P (updateProgress i v q)"
  shows "P q \<Longrightarrow> P (snd (runCallback j acts q))"
proof (induction j acts q rule: runCallback.induct)
  case (1 j q)
  then show ?case by simp
next
  case (2 j v acts q)
  then show ?case by (simp add: pr)
next
  case (3 j err acts q)
  then show ?case by (simp add: st)
next
  case (4 j err acts q)
  obtain x q1 where
    u: "updateJobStatus (job_id j) (if err then ''failed'' else ''completed'') q = (x, q1)"
    by (cases "updateJobStatus (job_id j) (if err then ''failed'' else ''completed'') q")
  have p1: "P q1"
    using st [OF "4.prems", of "job_id j" "if err then ''failed'' else ''completed''"] u by simp
  show ?case
  proof (cases x)
    case (Inl e)
    then show ?thesis using u p1 by simp
  next
    case (Inr y)
    have "P (snd (runCallback j acts q1))"
      using "4.IH" [of x q1 y] u Inr p1 by simp
    then show ?thesis using u Inr by simp
  qed
next
  case (5 j acts q)
  then show ?case by simp
qed

lemma runCallback_getActiveConsumer:
  "getActiveConsumer qn gn wid (snd (runCallback j acts q)) = getActiveConsumer qn gn wid q"
  by (rule runCallback_preserves
        [where P = "\<lambda>q'. getActiveConsumer qn gn wid q' = getActiveConsumer qn gn wid q"])
     (simp_all add: updateProgress_getActiveConsumer updateJobStatus_getActiveConsumer)

lemma processJob_getActiveConsumer:
  "getActiveConsumer qn gn wid (snd (processJob qn' j fn q)) = getActiveConsumer qn gn wid q"
  using runCallback_getActiveConsumer [of qn gn wid j "fn j" q]
  by (auto simp: processJob_def updateJobStatus_getActiveConsumer split: prod.splits bool.splits)

lemma resetGroupConsumerTimer_absent:
  "getActiveConsumer qn gn wid q = None \<Longrightarrow> resetGroupConsumerTimer qn gn wid q = q"
  by (simp add: resetGroupConsumerTimer_def)

lemma iteration_absent:
  assumes "getActiveConsumer qn gn wid q = None"
  shows "fst (groupWorkerIteration J qn gn gk wid q) \<noteq> Stopped \<and>
         getActiveConsumer qn gn wid (snd (groupWorkerIteration J qn gn gk wid q)) = None"
proof -
  obtain res q1 where s: "safeEvalsha ''dequeue'' 1 [gk] q = (res, q1)"
    by (cases "safeEvalsha ''dequeue'' 1 [gk] q")
  have a1: "getActiveConsumer qn gn wid q1 = None"
    using safeEvalsha_getActiveConsumer [of qn gn wid "''dequeue''" 1 "[gk]" q] s assms by simp
  have pj: "getActiveConsumer qn gn wid q3 = None" if "processJob qn j fn q1 = (x, q3)" for j fn x q3
    using a1 processJob_getActiveConsumer [of qn gn wid qn j fn q1] that by simp
  show ?thesis
    using s a1
    by (auto simp: groupWorkerIteration_def Let_def resetGroupConsumerTimer_absent
        checkGroupConsumerInactivity_def truthy_flag_def
        split: sum.splits option.splits prod.splits dest: pj)
qed

lemma iteration_quiet:
  assumes "getActiveConsumer qn gn wid q = None" and "quietGroup gk q"
  shows "fst (groupWorkerIteration J qn gn gk wid q) = Slept \<and>
         quietGroup gk (snd (groupWorkerIteration J qn gn gk wid q))"
proof -
  have e: "client_evalsha (map_of (shaField q) ''dequeue'') 1 [gk] (redis q)
             = (Inr Null, sent (EVALSHA (map_of (shaField q) ''dequeue'')) (redis q))"
    using assms(2)
    by (simp add: quietGroup_def client_evalsha_def fault_def dequeue_lua_def sent_def)
  have s: "safeEvalsha ''dequeue'' 1 [gk] q
             = (Inr Null, q\<lparr>redis := sent (EVALSHA (map_of (shaField q) ''dequeue'')) (redis q)\<rparr>)"
    using e by (simp add: safeEvalsha_def)
  show ?thesis
    using assms s
    by (simp add: groupWorkerIteration_def truthy_def checkGroupConsumerInactivity_def
        truthy_flag_def getActiveConsumer_def quietGroup_def)
qed

lemma groupWorker_absent_no_break:
  "getActiveConsumer qn gn wid q = None \<Longrightarrow>
   groupWorker fuel J qn gn gk wid q \<noteq> Some (Inr (), q')"
proof (induction fuel arbitrary: q)
  case 0
  then show ?case by simp
next
  case (Suc fuel)
  obtain out q1 where it: "groupWorkerIteration J qn gn gk wid q = (out, q1)"
    by (cases "groupWorkerIteration J qn gn gk wid q")
  from iteration_absent [OF Suc.prems, of J gk] it
  have ns: "out \<noteq> Stopped" and ab: "getActiveConsumer qn gn wid q1 = None" by simp_all
  show ?case
    using it ns Suc.IH [OF ab] by (cases out) simp_all
qed

lemma groupWorker_quiet_forever:
  "getActiveConsumer qn gn wid q = None \<Longrightarrow> quietGroup gk q \<Longrightarrow>
   groupWorker fuel J qn gn gk wid q = None"
proof (induction fuel arbitrary: q)
  case 0
  then show ?case by simp
next
  case (Suc fuel)
  obtain out q1 where it: "groupWorkerIteration J qn gn gk wid q = (out, q1)"
    by (cases "groupWorkerIteration J qn gn gk wid q")
  from iteration_quiet [OF Suc.prems, of J] it
  have sl: "out = Slept" and qu: "quietGroup gk q1" by simp_all
  from iteration_absent [OF Suc.prems(1), of J gk] it
  have ab: "getActiveConsumer qn gn wid q1 = None" by simp
  show ?case
    using it sl Suc.IH [OF ab qu] by simp
qed

text \<open>
  C10. When the consumer record of a worker is absent, \<open>checkGroupConsumerInactivity\<close>
  returns \<open>null\<close>, which is falsy; a pass of the loop in which the dequeue returns a falsy
  result sleeps and leaves the state as the dequeue left it; the loop is never left by
  the \<open>break\<close> that follows \<open>stopGroupConsumer\<close>, however many passes it makes; and
  while nothing arrives at the group key and the store answers, it is not left at all.
\<close>

theorem absent_record_keeps_worker_running:
  assumes "getActiveConsumer qn gn wid q = None"
  shows "checkGroupConsumerInactivity qn gn wid q = None \<and>
         \<not> truthy_flag (checkGroupConsumerInactivity qn gn wid q) \<and>
         (\<forall>res q1. safeEvalsha ''dequeue'' 1 [gk] q = (Inr res, q1) \<longrightarrow> \<not> truthy res \<longrightarrow>
            groupWorkerIteration J qn gn gk wid q = (Slept, q1)) \<and>
         (\<forall>fuel q'. groupWorker fuel J qn gn gk wid q \<noteq> Some (Inr (), q')) \<and>
         (quietGroup gk q \<longrightarrow> (\<forall>fuel. groupWorker fuel J qn gn gk wid q = None))"
proof -
  have c: "checkGroupConsumerInactivity qn gn wid q = None"
    using assms by (simp add: checkGroupConsumerInactivity_def)
  have it: "groupWorkerIteration J qn gn gk wid q = (Slept, q1)"
    if "safeEvalsha ''dequeue'' 1 [gk] q = (Inr res, q1)" and "\<not> truthy res" for res q1
  proof -
    have "getActiveConsumer qn gn wid q1 = None"
      using safeEvalsha_getActiveConsumer [of qn gn wid "''dequeue''" 1 "[gk]" q] that(1) assms
      by simp
    then show ?thesis
      using that
      by (simp add: groupWorkerIteration_def checkGroupConsumerInactivity_def truthy_flag_def)
  qed
  show ?thesis
    using c it groupWorker_absent_no_break [OF assms] groupWorker_quiet_forever [OF assms]
    by (simp add: truthy_flag_def)
qed

text \<open>
  On \<open>readyNode\<close> the worker \<open>w9\<close> has no record and the group is quiet: five passes
  do not leave the loop.
\<close>

theorem absent_record_keeps_worker_running_witness:
  "getActiveConsumer ''Q'' ''G'' ''w9'' readyNode = None \<and>
   quietGroup ''qube:Q:group:G'' readyNode \<and>
   checkGroupConsumerInactivity ''Q'' ''G'' ''w9'' readyNode = None \<and>
   groupWorker 5 exampleJson ''Q'' ''G'' ''qube:Q:group:G'' ''w9'' readyNode = None"
proof -
  have a: "getActiveConsumer ''Q'' ''G'' ''w9'' readyNode = None" by code_simp
  have b: "quietGroup ''qube:Q:group:G'' readyNode" by code_simp
  from absent_record_keeps_worker_running [OF a, of "''qube:Q:group:G''" exampleJson] a b
  show ?thesis by simp
qed

section \<open>\<open>safeEvalsha\<close> reloads a script on \<open>NOSCRIPT\<close> only\<close>

text \<open>
  The scripts send no script or publish commands of their own, so \<open>commands\<close> tells how
  often \<open>safeEvalsha\<close> called \<open>EVALSHA\<close> and \<open>SCRIPT LOAD\<close>.
\<close>

lemma HSET_commands [simp]: "commands (HSET k f v r) = commands r"
  by (simp add: HSET_def)

lemma RPUSH_commands [simp]: "commands (RPUSH k v r) = commands r"
  by (simp add: RPUSH_def)

lemma SADD_commands [simp]: "commands (SADD k v r) = commands r"
  by (simp add: SADD_def)

lemma LPOP_commands [simp]: "commands (LPOP k r) = commands r"
  by (simp add: LPOP_def)

lemma commands_sent [simp]: "commands (sent c r) = commands r @ [c]"
  by (simp add: sent_def)

lemma run_script_commands:
  "commands (snd (run_script src K A r)) = commands r"
  by (cases src)
     (simp_all add: enqueue_lua_def dequeue_lua_def update_status_lua_def get_status_lua_def
        Let_def split: list.splits)

lemma client_evalsha_commands:
  "commands (snd (client_evalsha sha n args r)) = commands r @ [EVALSHA sha]"
  by (simp add: client_evalsha_def run_script_commands split: option.splits)

lemma client_script_load_commands:
  "commands (snd (client_script_load s r)) = commands r @ [SCRIPT_LOAD (toSource s)]"
  by (simp add: client_script_load_def split: option.splits)

lemma client_script_load_result:
  "fst (client_script_load s r) =
     (case fault r of Some e \<Rightarrow> Inl e | None \<Rightarrow> Inr (SHA1 (toSource s)))"
  by (simp add: client_script_load_def split: option.splits)

lemma init_scriptField:
  "map_of (scriptField (snd (init q0))) ''enqueue'' = Some Enqueue_lua \<and>
   map_of (scriptField (snd (init q0))) ''dequeue'' = Some Dequeue_lua \<and>
   map_of (scriptField (snd (init q0))) ''updateStatus'' = Some Update_status_lua \<and>
   map_of (scriptField (snd (init q0))) ''getStatus'' = Some Get_status_lua"
proof -
  have ls: "scriptField (snd (loadScripts ks q)) = scriptField q" for ks q
    by (induction ks arbitrary: q)
       (auto simp: loadScript_def split: prod.splits sum.splits)
  define q1 where "q1 = q0\<lparr>scriptField :=
                  AList.update ''getStatus'' Get_status_lua
                    (AList.update ''updateStatus'' Update_status_lua
                      (AList.update ''dequeue'' Dequeue_lua
                        (AList.update ''enqueue'' Enqueue_lua (scriptField q0))))\<rparr>"
  obtain x q2 where l: "loadScripts [''enqueue'', ''dequeue'', ''updateStatus'', ''getStatus''] q1 = (x, q2)"
    by (cases "loadScripts [''enqueue'', ''dequeue'', ''updateStatus'', ''getStatus''] q1")
  have "scriptField q2 = scriptField q1"
    using ls [of "[''enqueue'', ''dequeue'', ''updateStatus'', ''getStatus'']" q1] l by simp
  moreover have "scriptField (snd (init q0)) = scriptField q2"
    using l by (cases x) (simp_all add: init_def Let_def q1_def [symmetric] del: loadScripts.simps)
  ultimately have "scriptField (snd (init q0)) =
          AList.update ''getStatus'' Get_status_lua
            (AList.update ''updateStatus'' Update_status_lua
              (AList.update ''dequeue'' Dequeue_lua
                (AList.update ''enqueue'' Enqueue_lua (scriptField q0))))"
    by (simp add: q1_def)
  then show ?thesis by (simp add: update_conv')
qed

lemma evalsha_pair:
  "client_evalsha sha n args r = (first, r1) \<Longrightarrow> commands r1 = commands r @ [EVALSHA sha]"
  using client_evalsha_commands [of sha n args r] by simp

text \<open>
  C3, as the code has it. Take the outcome of the first \<open>EVALSHA\<close>. If it is a reply,
  \<open>safeEvalsha\<close> returns it after that one command. If it is an error whose message
  includes \<open>NOSCRIPT\<close>, the source kept in the \<open>Script\<close> field of the key is loaded
  exactly once; when the load goes through, its digest replaces the one in the \<open>Sha\<close>
  field and \<open>EVALSHA\<close> is sent exactly once more, whose outcome is the result; when the
  load fails, its error is the result and the \<open>Sha\<close> fields are unchanged. Any other
  error is returned as it is, after the one command and with no load. And the \<open>Script\<close>
  fields are populated: whatever the state before, after \<open>init\<close> each of the four keys
  holds the source of its file, so the reload has a source to send.
\<close>

theorem safeEvalsha_reloads_only_on_NOSCRIPT:
  "(case client_evalsha (map_of (shaField q) k) n args (redis q) of
      (Inr v, r1) \<Rightarrow>
        safeEvalsha k n args q = (Inr v, q\<lparr>redis := r1\<rparr>) \<and>
        commands r1 = commands (redis q) @ [EVALSHA (map_of (shaField q) k)]
    | (Inl err, r1) \<Rightarrow>
        if str_includes (message err) ''NOSCRIPT'' then
          (case fault r1 of
             Some e \<Rightarrow>
               fst (safeEvalsha k n args q) = Inl e \<and>
               shaField (snd (safeEvalsha k n args q)) = shaField q \<and>
               commands (redis (snd (safeEvalsha k n args q))) =
                 commands (redis q) @
                 [EVALSHA (map_of (shaField q) k),
                  SCRIPT_LOAD (toSource (map_of (scriptField q) k))]
           | None \<Rightarrow>
               map_of (shaField (snd (safeEvalsha k n args q))) k =
                 Some (SHA1 (toSource (map_of (scriptField q) k))) \<and>
               commands (redis (snd (safeEvalsha k n args q))) =
                 commands (redis q) @
                 [EVALSHA (map_of (shaField q) k),
                  SCRIPT_LOAD (toSource (map_of (scriptField q) k)),
                  EVALSHA (Some (SHA1 (toSource (map_of (scriptField q) k))))] \<and>
               fst (safeEvalsha k n args q) =
                 fst (client_evalsha (Some (SHA1 (toSource (map_of (scriptField q) k)))) n args
                        (snd (client_script_load (map_of (scriptField q) k) r1))))
        else
          safeEvalsha k n args q = (Inl err, q\<lparr>redis := r1\<rparr>) \<and>
          commands r1 = commands (redis q) @ [EVALSHA (map_of (shaField q) k)]) \<and>
   map_of (scriptField (snd (init q0))) ''enqueue'' = Some Enqueue_lua \<and>
   map_of (scriptField (snd (init q0))) ''dequeue'' = Some Dequeue_lua \<and>
   map_of (scriptField (snd (init q0))) ''updateStatus'' = Some Update_status_lua \<and>
   map_of (scriptField (snd (init q0))) ''getStatus'' = Some Get_status_lua"
proof -
  obtain first r1 where e: "client_evalsha (map_of (shaField q) k) n args (redis q) = (first, r1)"
    by (cases "client_evalsha (map_of (shaField q) k) n args (redis q)")
  note c1 = evalsha_pair [OF e]
  let ?src = "toSource (map_of (scriptField q) k)"
  have main: "(case (first, r1) of
      (Inr v, r1) \<Rightarrow>
        safeEvalsha k n args q = (Inr v, q\<lparr>redis := r1\<rparr>) \<and>
        commands r1 = commands (redis q) @ [EVALSHA (map_of (shaField q) k)]
    | (Inl err, r1) \<Rightarrow>
        if str_includes (message err) ''NOSCRIPT'' then
          (case fault r1 of
             Some e \<Rightarrow>
               fst (safeEvalsha k n args q) = Inl e \<and>
               shaField (snd (safeEvalsha k n args q)) = shaField q \<and>
               commands (redis (snd (safeEvalsha k n args q))) =
                 commands (redis q) @ [EVALSHA (map_of (shaField q) k), SCRIPT_LOAD ?src]
           | None \<Rightarrow>
               map_of (shaField (snd (safeEvalsha k n args q))) k = Some (SHA1 ?src) \<and>
               commands (redis (snd (safeEvalsha k n args q))) =
                 commands (redis q) @
                 [EVALSHA (map_of (shaField q) k), SCRIPT_LOAD ?src, EVALSHA (Some (SHA1 ?src))] \<and>
               fst (safeEvalsha k n args q) =
                 fst (client_evalsha (Some (SHA1 ?src)) n args
                        (snd (client_script_load (map_of (scriptField q) k) r1))))
        else
          safeEvalsha k n args q = (Inl err, q\<lparr>redis := r1\<rparr>) \<and>
          commands r1 = commands (redis q) @ [EVALSHA (map_of (shaField q) k)])"
  proof (cases first)
    case (Inr v)
    then show ?thesis using e c1 by (simp add: safeEvalsha_def)
  next
    case (Inl err)
    show ?thesis
    proof (cases "str_includes (message err) ''NOSCRIPT''")
      case False
      then show ?thesis using e c1 Inl by (simp add: safeEvalsha_def)
    next
      case True
      obtain l r2 where ld: "client_script_load (map_of (scriptField q) k) r1 = (l, r2)"
        by (cases "client_script_load (map_of (scriptField q) k) r1")
      have c2: "commands r2 = commands r1 @ [SCRIPT_LOAD ?src]"
        using client_script_load_commands [of "map_of (scriptField q) k" r1] ld by simp
      have lr: "l = (case fault r1 of Some e \<Rightarrow> Inl e | None \<Rightarrow> Inr (SHA1 ?src))"
        using client_script_load_result [of "map_of (scriptField q) k" r1] ld by simp
      show ?thesis
      proof (cases "fault r1")
        case (Some e')
        then show ?thesis
          using e Inl True ld lr c1 c2 by (simp add: safeEvalsha_def)
      next
        case None
        obtain res r3 where re: "client_evalsha (Some (SHA1 ?src)) n args r2 = (res, r3)"
          by (cases "client_evalsha (Some (SHA1 ?src)) n args r2")
        note c3 = evalsha_pair [OF re]
        show ?thesis
          using e Inl True ld lr None re c1 c2 c3
          by (simp add: safeEvalsha_def update_conv')
      qed
    qed
  qed
  show ?thesis
    using main init_scriptField [of q0] by (simp add: e)
qed

text \<open>
  On \<open>flushedNode\<close> the first \<open>EVALSHA\<close> of an enqueue is answered \<open>NOSCRIPT\<close>; the
  call sends one load of \<open>enqueue.lua\<close> and one more \<open>EVALSHA\<close>.
\<close>

theorem safeEvalsha_reloads_only_on_NOSCRIPT_witness:
  "fst (client_evalsha (map_of (shaField flushedNode) ''enqueue'') 2
          [''qube:Q:groups'', ''qube:Q:group:G'', ''null'', ''G''] (redis flushedNode))
     = Inl (ReplyError ''NOSCRIPT No matching script. Please use EVAL.'') \<and>
   map_of (shaField (snd (safeEvalsha ''enqueue'' 2
          [''qube:Q:groups'', ''qube:Q:group:G'', ''null'', ''G''] flushedNode))) ''enqueue''
     = Some (SHA1 Enqueue_lua) \<and>
   commands (redis (snd (safeEvalsha ''enqueue'' 2
          [''qube:Q:groups'', ''qube:Q:group:G'', ''null'', ''G''] flushedNode)))
     = commands (redis flushedNode) @
       [EVALSHA (Some (SHA1 Enqueue_lua)), SCRIPT_LOAD Enqueue_lua,
        EVALSHA (Some (SHA1 Enqueue_lua))]"
proof -
  let ?args = "[''qube:Q:groups'', ''qube:Q:group:G'', ''null'', ''G'']"
  obtain first r1 where
    e: "client_evalsha (map_of (shaField flushedNode) ''enqueue'') 2 ?args (redis flushedNode) = (first, r1)"
    by (cases "client_evalsha (map_of (shaField flushedNode) ''enqueue'') 2 ?args (redis flushedNode)")
  have f: "fst (client_evalsha (map_of (shaField flushedNode) ''enqueue'') 2 ?args (redis flushedNode))
             = Inl (ReplyError ''NOSCRIPT No matching script. Please use EVAL.'')"
    by code_simp
  have r: "fault (snd (client_evalsha (map_of (shaField flushedNode) ''enqueue'') 2 ?args (redis flushedNode))) = None"
    by code_simp
  have s: "map_of (shaField flushedNode) ''enqueue'' = Some (SHA1 Enqueue_lua)" by code_simp
  have t: "map_of (scriptField flushedNode) ''enqueue'' = Some Enqueue_lua" by code_simp
  have n: "str_includes ''NOSCRIPT No matching script. Please use EVAL.'' ''NOSCRIPT''" by code_simp
  from e f have first: "first = Inl (ReplyError ''NOSCRIPT No matching script. Please use EVAL.'')" by simp
  from e r have r1: "fault r1 = None" by simp
  note inst = safeEvalsha_reloads_only_on_NOSCRIPT
         [where q = flushedNode and k = "''enqueue''" and n = 2 and args = ?args and ?q0.0 = node0,
          unfolded e]
  from inst show ?thesis
    using f by (simp add: first r1 s t n toSource_def)
qed

text \<open>
  C3 as the claim states it, with the remark that the \<open>Script\<close> field is never populated
  so that a reload could not work, fails: after \<open>init\<close> the field of \<open>enqueue\<close> holds
  the source, and with the script cache flushed the enqueue still returns the job id
  and leaves the job on the group list.
\<close>

theorem script_field_is_populated_by_init:
  "map_of (scriptField readyNode) ''enqueue'' = Some Enqueue_lua \<and>
   scriptCache (redis flushedNode) = [] \<and>
   fst (safeEvalsha ''enqueue'' 2 [''qube:Q:groups'', ''qube:Q:group:G'', ''null'', ''G'']
          flushedNode) = Inr (Str ''1'') \<and>
   listStore (redis (snd (safeEvalsha ''enqueue'' 2
          [''qube:Q:groups'', ''qube:Q:group:G'', ''null'', ''G''] flushedNode)))
     ''qube:Q:group:G'' = [''1'']"
  by code_simp

section \<open>\<open>updateProgress\<close> and the Job record\<close>

lemma progress_key_is_not_job_key: "''qube:job:'' @ a \<noteq> jobKey b"
  by (simp add: jobKey_def)

text \<open>
  C2 fails on the code. \<open>updateProgress\<close> writes the field \<open>progress\<close> of the hash
  \<open>qube:job:{jobId}\<close>. For every job id \<open>j\<close> the hash \<open>qube:queue:job:{j}\<close>, which is the
  one \<open>get_status.lua\<close> reads, is left as it was, and so is what \<open>get_status\<close> returns.
\<close>

theorem updateProgress_misses_job_record:
  "HGET (''qube:job:'' @ tmpl jobId) ''progress'' (redis (updateProgress jobId v q)) = Some v \<and>
   hashStore (redis (updateProgress jobId v q)) (jobKey j) = hashStore (redis q) (jobKey j) \<and>
   get_status_lua [] [j] (redis (updateProgress jobId v q)) =
     (fst (get_status_lua [] [j] (redis q)), redis (updateProgress jobId v q))"
  using progress_key_is_not_job_key [of "tmpl jobId" j]
  by (auto simp: updateProgress_def get_status_lua_def HGET_def jobKey_def)

text \<open>
  The same on the job that \<open>add\<close> enqueued as id 1: after \<open>progress(50)\<close> its record still
  says \<open>progress = 0\<close>, and 50 stands in the hash \<open>qube:job:1\<close>.
\<close>

lemma updateProgress_example:
  "fst (add exampleJson ''Q'' ''G'' (JStr ''Hola mundo 1'') readyNode) = Inr (Str ''1'') \<and>
   HGET ''qube:queue:job:1'' ''progress'' (redis enqueuedNode) = Some ''0'' \<and>
   HGET ''qube:queue:job:1'' ''progress'' (redis (updateProgress (Some ''1'') ''50'' enqueuedNode))
     = Some ''0'' \<and>
   HGET ''qube:job:1'' ''progress'' (redis (updateProgress (Some ''1'') ''50'' enqueuedNode))
     = Some ''50''"
  by code_simp

section \<open>Messages on \<open>QUEUE:NEWJOB\<close>\<close>

text \<open>
  What the handler does with a message of the channel: a payload that does not parse
  makes it raise \<open>SyntaxError\<close> with nothing logged and nothing changed; a parsed object
  whose \<open>queueName\<close> is registered is routed to \<open>startGroupConsumer\<close> with the
  registration's \<open>nConsumers\<close>; any other parsed value that is not \<open>null\<close> changes
  nothing.
\<close>

lemma onMessage_routes:
  "case parse J msg of
     None \<Rightarrow> onMessage J ''QUEUE:NEWJOB'' msg q = (Inl SyntaxError, [], q)
   | Some v \<Rightarrow>
       (case getProp v ''queueName'' of
          Some (JStr qn) \<Rightarrow>
            (case map_of (processMap q) qn of
               Some e \<Rightarrow>
                 fst (onMessage J ''QUEUE:NEWJOB'' msg q) = Inr () \<and>
                 snd (snd (onMessage J ''QUEUE:NEWJOB'' msg q)) =
                   startGroupConsumer qn (template (getProp v ''groupName'')) None False
                     (nConsumers e) q
             | None \<Rightarrow> snd (snd (onMessage J ''QUEUE:NEWJOB'' msg q)) = q)
        | _ \<Rightarrow> snd (snd (onMessage J ''QUEUE:NEWJOB'' msg q)) = q)"
  by (auto simp: onMessage_def Let_def template_def split: option.splits json.splits)

text \<open>
  C7 fails on the code. The payload \<open>not json\<close> is malformed; the handler of
  \<open>listenToPubSub\<close> has no \<open>try\<close> around \<open>JSON.parse\<close>, so it raises the \<open>SyntaxError\<close> and
  logs nothing.
\<close>

theorem onMessage_malformed_raises:
  "parse exampleJson ''not json'' = None \<and>
   onMessage exampleJson ''QUEUE:NEWJOB'' ''not json'' readyNode = (Inl SyntaxError, [], readyNode)"
proof -
  have a: "parse exampleJson ''not json'' = None" by code_simp
  then show ?thesis by (simp add: onMessage_def)
qed

section \<open>What the scripts do to the data\<close>

text \<open>
  The enqueue script by field, and the independence of every script from the parts of
  the store that are not data (the script cache, the faults and the command record).
\<close>

lemma dataOf_eq:
  "(dataOf r = dataOf r') =
     (hashStore r = hashStore r' \<and> listStore r = listStore r' \<and> setStore r = setStore r' \<and>
      jobCounter r = jobCounter r')"
  by (auto simp: dataOf_def)

lemma enqueue_lua_fst:
  "fst (enqueue_lua (qk # gk # K) (p # g # A) r) = Inr (Str (decimal (Suc (jobCounter r))))"
  by (simp add: enqueue_lua_def Let_def)

lemma enqueue_lua_listStore:
  "listStore (snd (enqueue_lua (qk # gk # K) (p # g # A) r)) =
     (listStore r)(gk := listStore r gk @ [decimal (Suc (jobCounter r))])"
  by (simp add: enqueue_lua_def Let_def)

lemma enqueue_lua_jobCounter:
  "jobCounter (snd (enqueue_lua (qk # gk # K) (p # g # A) r)) = Suc (jobCounter r)"
  by (simp add: enqueue_lua_def Let_def)

lemma enqueue_lua_setStore:
  "setStore (snd (enqueue_lua (qk # gk # K) (p # g # A) r)) =
     (if gk \<in> set (setStore r qk) then setStore r else (setStore r)(qk := setStore r qk @ [gk]))"
  by (simp add: enqueue_lua_def Let_def SADD_setStore)

lemma enqueue_lua_hashStore:
  "hashStore (snd (enqueue_lua (qk # gk # K) (p # g # A) r)) =
     (hashStore r)(jobKey (decimal (Suc (jobCounter r))) :=
        (hashStore r (jobKey (decimal (Suc (jobCounter r)))))
          (''status'' \<mapsto> ''pending'', ''progress'' \<mapsto> ''0'', ''group'' \<mapsto> g,
           ''data'' \<mapsto> p))"
  by (simp add: enqueue_lua_def Let_def)

lemma enqueue_lua_short:
  "length K < 2 \<or> length A < 2 \<Longrightarrow>
   enqueue_lua K A r = (Inl (ReplyError ''ERR wrong number of arguments''), r)"
  by (cases K; cases "tl K"; cases A; cases "tl A") (auto simp: enqueue_lua_def)

lemma enqueue_lua_data:
  assumes "dataOf r = dataOf r'"
  shows "fst (enqueue_lua K A r) = fst (enqueue_lua K A r') \<and>
         dataOf (snd (enqueue_lua K A r)) = dataOf (snd (enqueue_lua K A r'))"
proof (cases "length K < 2 \<or> length A < 2")
  case True
  then show ?thesis using assms by (simp add: enqueue_lua_short)
next
  case False
  then obtain qk gk K' p g A' where K: "K = qk # gk # K'" and A: "A = p # g # A'"
    by (cases K; cases "tl K"; cases A; cases "tl A") auto
  from assms have e: "hashStore r = hashStore r'" "listStore r = listStore r'"
    "setStore r = setStore r'" "jobCounter r = jobCounter r'"
    by (simp_all add: dataOf_def)
  show ?thesis
    unfolding K A dataOf_def enqueue_lua_fst enqueue_lua_hashStore enqueue_lua_listStore
      enqueue_lua_setStore enqueue_lua_jobCounter e
    by simp
qed

lemma dequeue_lua_data:
  assumes "dataOf r = dataOf r'"
  shows "fst (dequeue_lua K A r) = fst (dequeue_lua K A r') \<and>
         dataOf (snd (dequeue_lua K A r)) = dataOf (snd (dequeue_lua K A r'))"
  using assms
  by (simp add: dataOf_eq dequeue_lua_def Let_def HGET_def split: list.splits)

lemma update_status_lua_data:
  assumes "dataOf r = dataOf r'"
  shows "fst (update_status_lua K A r) = fst (update_status_lua K A r') \<and>
         dataOf (snd (update_status_lua K A r)) = dataOf (snd (update_status_lua K A r'))"
  using assms
  by (simp add: dataOf_eq update_status_lua_def HGET_def split: list.splits)

lemma get_status_lua_data:
  assumes "dataOf r = dataOf r'"
  shows "fst (get_status_lua K A r) = fst (get_status_lua K A r') \<and>
         dataOf (snd (get_status_lua K A r)) = dataOf (snd (get_status_lua K A r'))"
  using assms
  by (simp add: dataOf_eq get_status_lua_def HGET_def split: list.splits)

lemma run_script_data:
  assumes "dataOf r = dataOf r'"
  shows "fst (run_script src K A r) = fst (run_script src K A r') \<and>
         dataOf (snd (run_script src K A r)) = dataOf (snd (run_script src K A r'))"
  using assms
  by (cases src)
     (simp_all add: enqueue_lua_data [OF assms] dequeue_lua_data [OF assms]
        update_status_lua_data [OF assms] get_status_lua_data [OF assms])

section \<open>\<open>safeEvalsha\<close> when the script is in place\<close>

text \<open>
  With the digest and the source of a script held under its key, and no fault due,
  \<open>safeEvalsha\<close> runs that script once on the data of the store, whether the cache
  still holds it or it has to be reloaded.
\<close>

lemma run_script_scriptCache:
  "scriptCache (snd (run_script src K A r)) = scriptCache r"
  by (cases src)
     (simp_all add: enqueue_lua_def dequeue_lua_def update_status_lua_def get_status_lua_def
        Let_def split: list.splits)

lemma run_script_faults:
  "faults (snd (run_script src K A r)) = faults r"
  by (cases src)
     (simp_all add: enqueue_lua_def dequeue_lua_def update_status_lua_def get_status_lua_def
        Let_def split: list.splits)

lemma run_script_published:
  "published (snd (run_script src K A r)) = published r"
  by (cases src)
     (simp_all add: enqueue_lua_def dequeue_lua_def update_status_lua_def get_status_lua_def
        Let_def split: list.splits)

lemma run_script_cached: "cached sha (snd (run_script src K A r)) = cached sha r"
  by (simp add: cached_def run_script_scriptCache split: option.splits)

lemma run_script_error_not_NOSCRIPT:
  "fst (run_script src K A r) = Inl e \<Longrightarrow> \<not> str_includes (message e) ''NOSCRIPT''"
  by (cases src)
     (auto simp: enqueue_lua_def dequeue_lua_def update_status_lua_def get_status_lua_def
        Let_def split: list.splits)

lemma client_evalsha_hit:
  "fault r = None \<Longrightarrow> cached sha r = Some src \<Longrightarrow> n \<le> length args \<Longrightarrow>
   client_evalsha sha n args r =
     run_script src (take n args) (drop n args) (sent (EVALSHA sha) r)"
  by (simp add: client_evalsha_def)

lemma client_evalsha_miss:
  "fault r = None \<Longrightarrow> cached sha r = None \<Longrightarrow>
   client_evalsha sha n args r =
     (Inl (ReplyError ''NOSCRIPT No matching script. Please use EVAL.''), sent (EVALSHA sha) r)"
  by (simp add: client_evalsha_def)

lemma NOSCRIPT_message:
  "str_includes (message (ReplyError ''NOSCRIPT No matching script. Please use EVAL.'')) ''NOSCRIPT''"
  by simp

lemma fault_no_faults: "faults r = [] \<Longrightarrow> fault r = None"
  by (simp add: fault_def)

lemma dataOf_sent [simp]: "dataOf (sent c r) = dataOf r"
  by (simp add: dataOf_def)

lemma dataOf_scriptCache_update [simp]: "dataOf (r\<lparr>scriptCache := c\<rparr>) = dataOf r"
  by (simp add: dataOf_def)

lemma cached_update:
  "cached (Some d') (r\<lparr>scriptCache := AList.update d s (scriptCache r)\<rparr>) =
     (if d' = d then Some s else cached (Some d') r)"
  by (simp add: cached_def update_conv')

lemma safeEvalsha_ready:
  assumes rd: "scriptReady k src q" and nf: "faults (redis q) = []" and len: "n \<le> length args"
  shows "\<exists>r0. dataOf r0 = dataOf (redis q) \<and> faults r0 = [] \<and>
           published r0 = published (redis q) \<and>
           activeGroupConsumers r0 = activeGroupConsumers (redis q) \<and>
           (\<forall>src'. cached (Some (SHA1 src')) r0 =
                     (if src' = src then Some src else cached (Some (SHA1 src')) (redis q))) \<and>
           safeEvalsha k n args q =
             (fst (run_script src (take n args) (drop n args) r0),
              q\<lparr>redis := snd (run_script src (take n args) (drop n args) r0)\<rparr>)"
proof -
  let ?r = "redis q"
  let ?K = "take n args" and ?A = "drop n args"
  from rd have sf: "map_of (shaField q) k = Some (SHA1 src)"
    and sc: "map_of (scriptField q) k = Some src"
    and ch: "cached (Some (SHA1 src)) ?r = None \<or> cached (Some (SHA1 src)) ?r = Some src"
    by (simp_all add: scriptReady_def)
  have f0: "fault ?r = None" using nf by (rule fault_no_faults)
  from ch show ?thesis
  proof
    assume hit: "cached (Some (SHA1 src)) ?r = Some src"
    let ?base = "sent (EVALSHA (Some (SHA1 src))) ?r"
    obtain x r1 where rs: "run_script src ?K ?A ?base = (x, r1)"
      by (cases "run_script src ?K ?A ?base")
    have ce: "client_evalsha (map_of (shaField q) k) n args ?r = (x, r1)"
      using client_evalsha_hit [OF f0 hit len] rs by (simp add: sf)
    have nn: "\<not> str_includes (message e) ''NOSCRIPT''" if "x = Inl e" for e
      using run_script_error_not_NOSCRIPT [of src ?K ?A ?base e] rs that by simp
    have se: "safeEvalsha k n args q = (x, q\<lparr>redis := r1\<rparr>)"
      using ce nn by (cases x) (simp_all add: safeEvalsha_def)
    have "dataOf ?base = dataOf ?r \<and> faults ?base = [] \<and> published ?base = published ?r \<and>
          activeGroupConsumers ?base = activeGroupConsumers ?r \<and>
          (\<forall>src'. cached (Some (SHA1 src')) ?base =
             (if src' = src then Some src else cached (Some (SHA1 src')) ?r))"
      using nf hit by simp
    then show ?thesis using se rs by (intro exI [of _ ?base]) simp
  next
    assume miss: "cached (Some (SHA1 src)) ?r = None"
    let ?ra = "sent (EVALSHA (Some (SHA1 src))) ?r"
    let ?rb = "(sent (SCRIPT_LOAD src) ?ra)\<lparr>scriptCache := AList.update (SHA1 src) src (scriptCache ?ra)\<rparr>"
    let ?base = "sent (EVALSHA (Some (SHA1 src))) ?rb"
    have ce: "client_evalsha (map_of (shaField q) k) n args ?r =
                (Inl (ReplyError ''NOSCRIPT No matching script. Please use EVAL.''), ?ra)"
      using client_evalsha_miss [OF f0 miss] by (simp add: sf)
    have f1: "fault ?ra = None" using nf by (simp add: fault_no_faults)
    have ld: "client_script_load (map_of (scriptField q) k) ?ra = (Inr (SHA1 src), ?rb)"
      using f1 by (simp add: client_script_load_def sc toSource_def)
    have f2: "fault ?rb = None" using nf by (simp add: fault_no_faults)
    have c2: "cached (Some (SHA1 src)) ?rb = Some src"
      by (simp add: cached_def sent_def update_conv')
    obtain x r3 where rs: "run_script src ?K ?A ?base = (x, r3)"
      by (cases "run_script src ?K ?A ?base")
    have re: "client_evalsha (Some (SHA1 src)) n args ?rb = (x, r3)"
      using client_evalsha_hit [OF f2 c2 len] rs by simp
    have se: "safeEvalsha k n args q =
                (x, q\<lparr>shaField := AList.update k (SHA1 src) (shaField q), redis := r3\<rparr>)"
      using ce ld re by (simp add: safeEvalsha_def)
    have tr: "AList.update k (SHA1 src) (shaField q) = shaField q"
      using sf by (rule update_triv)
    have "dataOf ?base = dataOf ?r \<and> faults ?base = [] \<and> published ?base = published ?r \<and>
          activeGroupConsumers ?base = activeGroupConsumers ?r \<and>
          (\<forall>src'. cached (Some (SHA1 src')) ?base =
             (if src' = src then Some src else cached (Some (SHA1 src')) ?r))"
      using nf by (simp add: cached_def sent_def update_conv' dataOf_def)
    then show ?thesis using se rs tr by (intro exI [of _ ?base]) simp
  qed
qed

section \<open>\<open>add\<close>: enqueue first, publish afterwards, no rollback\<close>

text \<open>
  A successful \<open>safeEvalsha\<close> has run its script exactly once on the data of the store,
  and a script that raises leaves the store as it was.
\<close>

lemma run_script_Inl: "run_script src K A r = (Inl e, r') \<Longrightarrow> r' = r"
  by (cases src)
     (auto simp: enqueue_lua_def dequeue_lua_def update_status_lua_def get_status_lua_def
        Let_def split: list.splits)

lemma client_evalsha_Inr:
  "client_evalsha sha n args r = (Inr v, r1) \<Longrightarrow>
   \<exists>src. cached sha r = Some src \<and>
         run_script src (take n args) (drop n args) (sent (EVALSHA sha) r) = (Inr v, r1)"
  by (auto simp: client_evalsha_def split: option.splits if_splits)

lemma client_evalsha_Inl:
  "client_evalsha sha n args r = (Inl e, r1) \<Longrightarrow> r1 = sent (EVALSHA sha) r"
  by (auto simp: client_evalsha_def split: option.splits if_splits dest: run_script_Inl)

lemma client_script_load_Inr:
  "client_script_load s r = (Inr d, r2) \<Longrightarrow>
   d = SHA1 (toSource s) \<and>
   r2 = (sent (SCRIPT_LOAD (toSource s)) r)
          \<lparr>scriptCache := AList.update (SHA1 (toSource s)) (toSource s) (scriptCache r)\<rparr>"
  by (auto simp: client_script_load_def split: option.splits)

lemma safeEvalsha_success:
  assumes rd: "scriptReady k src q" and ok: "safeEvalsha k n args q = (Inr v, q1)"
  shows "\<exists>r0. dataOf r0 = dataOf (redis q) \<and> published r0 = published (redis q) \<and>
           run_script src (take n args) (drop n args) r0 = (Inr v, redis q1)"
proof -
  let ?r = "redis q"
  from rd have sf: "map_of (shaField q) k = Some (SHA1 src)"
    and sc: "map_of (scriptField q) k = Some src"
    and ch: "cached (Some (SHA1 src)) ?r = None \<or> cached (Some (SHA1 src)) ?r = Some src"
    by (simp_all add: scriptReady_def)
  obtain x ra where ce: "client_evalsha (Some (SHA1 src)) n args ?r = (x, ra)"
    by (cases "client_evalsha (Some (SHA1 src)) n args ?r")
  show ?thesis
  proof (cases x)
    case (Inr v')
    with ce ok sf have v: "v' = v" and q1: "q1 = q\<lparr>redis := ra\<rparr>"
      by (simp_all add: safeEvalsha_def)
    from client_evalsha_Inr [OF ce [unfolded Inr]] ch obtain
      rs: "run_script src (take n args) (drop n args) (sent (EVALSHA (Some (SHA1 src))) ?r) = (Inr v', ra)"
      by auto
    show ?thesis
      using rs v q1 by (intro exI [of _ "sent (EVALSHA (Some (SHA1 src))) ?r"]) simp
  next
    case (Inl err)
    from client_evalsha_Inl [OF ce [unfolded Inl]] have ra: "ra = sent (EVALSHA (Some (SHA1 src))) ?r" .
    obtain l rb where ld: "client_script_load (Some src) ra = (l, rb)"
      by (cases "client_script_load (Some src) ra")
    from ce ok sf sc Inl ld obtain sha where l: "l = Inr sha"
      by (cases l) (auto simp: safeEvalsha_def split: if_splits)
    from client_script_load_Inr [OF ld [unfolded l]]
    have sha: "sha = SHA1 src"
      and rb: "rb = (sent (SCRIPT_LOAD src) ra)\<lparr>scriptCache := AList.update (SHA1 src) src (scriptCache ra)\<rparr>"
      by (simp_all add: toSource_def)
    obtain y rc where re: "client_evalsha (Some (SHA1 src)) n args rb = (y, rc)"
      by (cases "client_evalsha (Some (SHA1 src)) n args rb")
    from ce ok sf sc Inl ld l sha re have y: "y = Inr v" and q1: "redis q1 = rc"
      by (auto simp: safeEvalsha_def split: if_splits)
    have c: "cached (Some (SHA1 src)) rb = Some src"
      by (simp add: rb cached_def update_conv')
    from client_evalsha_Inr [OF re [unfolded y]] c
    have rs: "run_script src (take n args) (drop n args) (sent (EVALSHA (Some (SHA1 src))) rb) = (Inr v, rc)"
      by auto
    have d: "dataOf (sent (EVALSHA (Some (SHA1 src))) rb) = dataOf ?r \<and>
             published (sent (EVALSHA (Some (SHA1 src))) rb) = published ?r"
      by (simp add: rb ra dataOf_def)
    show ?thesis
      using rs d q1 by (intro exI [of _ "sent (EVALSHA (Some (SHA1 src))) rb"]) simp
  qed
qed

lemma safeEvalsha_enqueue_success:
  assumes rd: "scriptReady ''enqueue'' Enqueue_lua q"
    and ok: "safeEvalsha ''enqueue'' 2 [qk, gk, p, g] q = (Inr v, q1)"
  shows "v = Str (decimal (Suc (jobCounter (redis q)))) \<and>
         listStore (redis q1) =
           (listStore (redis q))(gk := listStore (redis q) gk @ [decimal (Suc (jobCounter (redis q)))]) \<and>
         hashStore (redis q1) =
           (hashStore (redis q))(jobKey (decimal (Suc (jobCounter (redis q)))) :=
              (hashStore (redis q) (jobKey (decimal (Suc (jobCounter (redis q))))))
                (''status'' \<mapsto> ''pending'', ''progress'' \<mapsto> ''0'', ''group'' \<mapsto> g,
                 ''data'' \<mapsto> p)) \<and>
         jobCounter (redis q1) = Suc (jobCounter (redis q)) \<and>
         published (redis q1) = published (redis q)"
proof -
  from safeEvalsha_success [OF rd ok] obtain r0 where
    d: "dataOf r0 = dataOf (redis q)" and pb: "published r0 = published (redis q)" and
    rs: "run_script Enqueue_lua (take 2 [qk, gk, p, g]) (drop 2 [qk, gk, p, g]) r0 = (Inr v, redis q1)"
    by blast
  from rs have e: "enqueue_lua [qk, gk] [p, g] r0 = (Inr v, redis q1)" by simp
  from d have dd: "hashStore r0 = hashStore (redis q)" "listStore r0 = listStore (redis q)"
    "jobCounter r0 = jobCounter (redis q)"
    by (simp_all add: dataOf_def)
  have "v = Str (decimal (Suc (jobCounter r0)))"
    using enqueue_lua_fst [of qk gk "[]" p g "[]" r0] e by simp
  moreover have "listStore (redis q1) = (listStore r0)(gk := listStore r0 gk @ [decimal (Suc (jobCounter r0))])"
    using enqueue_lua_listStore [of qk gk "[]" p g "[]" r0] e by simp
  moreover have "hashStore (redis q1) =
           (hashStore r0)(jobKey (decimal (Suc (jobCounter r0))) :=
              (hashStore r0 (jobKey (decimal (Suc (jobCounter r0)))))
                (''status'' \<mapsto> ''pending'', ''progress'' \<mapsto> ''0'', ''group'' \<mapsto> g,
                 ''data'' \<mapsto> p))"
    using enqueue_lua_hashStore [of qk gk "[]" p g "[]" r0] e by simp
  moreover have "jobCounter (redis q1) = Suc (jobCounter r0)"
    using enqueue_lua_jobCounter [of qk gk "[]" p g "[]" r0] e by simp
  moreover have "published (redis q1) = published r0"
    using run_script_published [of Enqueue_lua "[qk, gk]" "[p, g]" r0] e by simp
  ultimately show ?thesis by (simp add: dd pb)
qed

text \<open>
  C8. With the enqueue script in place, \<open>add\<close> first runs the enqueue: if that fails,
  its error is the result. Otherwise the script has returned the fresh job id and
  appended it to the group list, and nothing is published yet. The publish command is
  the one command sent after those of the enqueue. Whether it fails or not, the data
  of the store stay as the enqueue left them and the job is on the group list; if it
  fails, \<open>add\<close> raises its error and no message went out, and if it succeeds \<open>add\<close>
  returns the id that the script produced and the notification is published.
\<close>

theorem add_enqueue_then_publish:
  assumes rd: "scriptReady ''enqueue'' Enqueue_lua q"
  shows
  "case safeEvalsha ''enqueue'' 2
          [''qube:'' @ qn @ '':groups'', ''qube:'' @ qn @ '':group:'' @ gn, stringify J d, gn] q of
     (Inl e, q1) \<Rightarrow> add J qn gn d q = (Inl e, q1)
   | (Inr jobId, q1) \<Rightarrow>
       jobId = Str (decimal (Suc (jobCounter (redis q)))) \<and>
       listStore (redis q1) (''qube:'' @ qn @ '':group:'' @ gn) =
         listStore (redis q) (''qube:'' @ qn @ '':group:'' @ gn) @
         [decimal (Suc (jobCounter (redis q)))] \<and>
       published (redis q1) = published (redis q) \<and>
       commands (redis (snd (add J qn gn d q))) =
         commands (redis q1) @
         [PUBLISH ''QUEUE:NEWJOB''
            (stringify J (JObj [(''queueName'', JStr qn), (''groupName'', JStr gn)]))] \<and>
       dataOf (redis (snd (add J qn gn d q))) = dataOf (redis q1) \<and>
       listStore (redis (snd (add J qn gn d q))) (''qube:'' @ qn @ '':group:'' @ gn) =
         listStore (redis q) (''qube:'' @ qn @ '':group:'' @ gn) @
         [decimal (Suc (jobCounter (redis q)))] \<and>
       (case fault (redis q1) of
          Some e \<Rightarrow>
            fst (add J qn gn d q) = Inl e \<and>
            published (redis (snd (add J qn gn d q))) = published (redis q)
        | None \<Rightarrow>
            fst (add J qn gn d q) = Inr jobId \<and>
            published (redis (snd (add J qn gn d q))) =
              published (redis q) @
              [(''QUEUE:NEWJOB'',
                stringify J (JObj [(''queueName'', JStr qn), (''groupName'', JStr gn)]))])"
proof -
  let ?qk = "''qube:'' @ qn @ '':groups''" and ?gk = "''qube:'' @ qn @ '':group:'' @ gn"
  let ?msg = "stringify J (JObj [(''queueName'', JStr qn), (''groupName'', JStr gn)])"
  obtain res q1 where se: "safeEvalsha ''enqueue'' 2 [?qk, ?gk, stringify J d, gn] q = (res, q1)"
    by (cases "safeEvalsha ''enqueue'' 2 [?qk, ?gk, stringify J d, gn] q")
  show ?thesis
  proof (cases res)
    case (Inl e)
    then show ?thesis using se by (simp add: add_def Let_def)
  next
    case (Inr jobId)
    note eff = safeEvalsha_enqueue_success [OF rd se [unfolded Inr]]
    have ls: "listStore (redis q1) ?gk = listStore (redis q) ?gk @ [decimal (Suc (jobCounter (redis q)))]"
      using eff by simp
    show ?thesis
    proof (cases "fault (redis q1)")
      case None
      then show ?thesis
        using se Inr eff ls
        by (simp add: add_def Let_def client_publish_def dataOf_def)
    next
      case (Some e)
      then show ?thesis
        using se Inr eff ls
        by (simp add: add_def Let_def client_publish_def dataOf_def)
    qed
  qed
qed

text \<open>
  On \<open>publishFailNode\<close> the enqueue goes through and the publish fails: \<open>add\<close> raises,
  and job 1 is on the list of group \<open>G\<close>.
\<close>

theorem add_enqueue_then_publish_witness:
  "scriptReady ''enqueue'' Enqueue_lua publishFailNode \<and>
   fst (add exampleJson ''Q'' ''G'' (JStr ''Hola mundo 1'') publishFailNode) =
     Inl (ReplyError ''Connection is closed.'') \<and>
   listStore (redis (snd (add exampleJson ''Q'' ''G'' (JStr ''Hola mundo 1'') publishFailNode)))
     ''qube:Q:group:G'' = [''1''] \<and>
   published (redis (snd (add exampleJson ''Q'' ''G'' (JStr ''Hola mundo 1'') publishFailNode))) = []"
proof -
  let ?args = "[''qube:'' @ ''Q'' @ '':groups'', ''qube:'' @ ''Q'' @ '':group:'' @ ''G'',
                stringify exampleJson (JStr ''Hola mundo 1''), ''G'']"
  have a: "scriptReady ''enqueue'' Enqueue_lua publishFailNode" by code_simp
  obtain res q1 where se: "safeEvalsha ''enqueue'' 2 ?args publishFailNode = (res, q1)"
    by (cases "safeEvalsha ''enqueue'' 2 ?args publishFailNode")
  have r: "fst (safeEvalsha ''enqueue'' 2 ?args publishFailNode) = Inr (Str ''1'')" by code_simp
  have f: "fault (redis (snd (safeEvalsha ''enqueue'' 2 ?args publishFailNode))) =
             Some (ReplyError ''Connection is closed.'')" by code_simp
  have l: "listStore (redis publishFailNode) ''qube:Q:group:G'' = []" by code_simp
  have p: "published (redis publishFailNode) = []" by code_simp
  have c: "decimal (Suc (jobCounter (redis publishFailNode))) = ''1''" by code_simp
  from r se have res: "res = Inr (Str ''1'')" by simp
  from f se have f1: "fault (redis q1) = Some (ReplyError ''Connection is closed.'')" by simp
  note inst = add_enqueue_then_publish [OF a, where qn = "''Q''" and gn = "''G''" and J = exampleJson
      and d = "JStr ''Hola mundo 1''", unfolded se]
  from inst show ?thesis
    using a by (simp add: res f1 l p c)
qed

section \<open>FIFO per group\<close>

lemma dequeue_lua_empty:
  "listStore r gk = [] \<Longrightarrow> dequeue_lua [gk] [] r = (Inr Null, r)"
  by (simp add: dequeue_lua_def)

lemma dequeue_lua_head:
  "listStore r gk = j # js \<Longrightarrow>
   (\<exists>d g. fst (dequeue_lua [gk] [] r) = Inr (Arr [Some j, d, g])) \<and>
   listStore (snd (dequeue_lua [gk] [] r)) = (listStore r)(gk := js)"
  by (simp add: dequeue_lua_def Let_def)

lemma update_status_lua_listStore:
  "listStore (snd (update_status_lua K A r)) = listStore r"
  by (simp add: update_status_lua_def split: list.splits)

lemma get_status_lua_listStore:
  "listStore (snd (get_status_lua K A r)) = listStore r"
  by (simp add: get_status_lua_def split: list.splits)

lemma apply_op_fifo_step:
  "listStore r G @ enqueued_id G c (fst (apply_op c r)) =
   dequeued_id G c (fst (apply_op c r)) @ listStore (snd (apply_op c r)) G"
proof (cases c)
  case (Enqueue qk gk p g)
  then show ?thesis
    by (simp add: enqueue_lua_fst enqueue_lua_listStore)
next
  case (Dequeue gk)
  show ?thesis
  proof (cases "listStore r gk")
    case Nil
    then show ?thesis using Dequeue by (simp add: dequeue_lua_empty)
  next
    case (Cons j js)
    from dequeue_lua_head [OF Cons] obtain d g where
      "fst (dequeue_lua [gk] [] r) = Inr (Arr [Some j, d, g])"
      "listStore (snd (dequeue_lua [gk] [] r)) = (listStore r)(gk := js)"
      by blast
    then show ?thesis using Dequeue Cons by simp
  qed
next
  case (UpdateStatus j s)
  then show ?thesis by (simp add: update_status_lua_listStore)
next
  case (GetStatus j)
  then show ?thesis by (simp add: get_status_lua_listStore)
qed

lemma fifo_account:
  "listStore r G @ appended G cs r = removed G cs r @ listStore (run_ops cs r) G"
proof (induction cs arbitrary: r)
  case Nil
  then show ?case by simp
next
  case (Cons c cs)
  have "listStore r G @ appended G (c # cs) r =
          (listStore r G @ enqueued_id G c (fst (apply_op c r))) @ appended G cs (snd (apply_op c r))"
    by simp
  also have "\<dots> = dequeued_id G c (fst (apply_op c r)) @
                   (listStore (snd (apply_op c r)) G @ appended G cs (snd (apply_op c r)))"
    by (simp add: apply_op_fifo_step)
  also have "\<dots> = removed G (c # cs) r @ listStore (run_ops (c # cs) r) G"
    by (simp add: Cons.IH)
  finally show ?case .
qed

text \<open>
  C1. For every group key, every store and every sequence of script calls: the list
  as it was, followed by the ids that enqueue appended, is the ids that dequeue
  returned followed by the list as it is. So the ids returned by the successive
  dequeues are a prefix of what was on the list followed by what was enqueued, and,
  from the empty store, a prefix of the ids in the order in which enqueue appended
  them.
\<close>

theorem dequeue_order_is_enqueue_order:
  "listStore r G @ appended G cs r = removed G cs r @ listStore (run_ops cs r) G \<and>
   prefix (removed G cs r) (listStore r G @ appended G cs r) \<and>
   prefix (removed G cs emptyStore) (appended G cs emptyStore)"
proof -
  have a: "listStore r G @ appended G cs r = removed G cs r @ listStore (run_ops cs r) G" for r
    by (rule fifo_account)
  have b: "prefix (removed G cs r) (listStore r G @ appended G cs r)" for r
    unfolding a by simp
  have c: "listStore emptyStore G = []" by (simp add: emptyStore_def)
  from b [of emptyStore] have "prefix (removed G cs emptyStore) (appended G cs emptyStore)"
    by (simp add: c)
  with a b show ?thesis by simp
qed

lemma fifo_example:
  "appended ''g''
     [Enqueue ''q'' ''g'' ''a'' ''G'', Enqueue ''q'' ''h'' ''b'' ''H'', Dequeue ''g'',
      Enqueue ''q'' ''g'' ''c'' ''G'', Dequeue ''g'', Dequeue ''g'', Enqueue ''q'' ''g'' ''d'' ''G'']
     emptyStore = [''1'', ''3'', ''4''] \<and>
   removed ''g''
     [Enqueue ''q'' ''g'' ''a'' ''G'', Enqueue ''q'' ''h'' ''b'' ''H'', Dequeue ''g'',
      Enqueue ''q'' ''g'' ''c'' ''G'', Dequeue ''g'', Dequeue ''g'', Enqueue ''q'' ''g'' ''d'' ''G'']
     emptyStore = [''1'', ''3'']"
  by code_simp

section \<open>Round trip of a payload\<close>

text \<open>
  Job ids are decimal texts of the counter, so distinct counters give distinct job
  records; a record, once written by enqueue, keeps its payload and group name through
  every later script call.
\<close>

lemma digit_inj: "a < 10 \<Longrightarrow> b < 10 \<Longrightarrow> digit a = digit b \<Longrightarrow> a = b"
proof -
  have d: "distinct ''0123456789''" by simp
  have l: "length ''0123456789'' = 10" by simp
  show "a < 10 \<Longrightarrow> b < 10 \<Longrightarrow> digit a = digit b \<Longrightarrow> a = b"
    unfolding digit_def using nth_eq_iff_index_eq [OF d, of a b] l by simp
qed

lemma decimal_nonempty: "decimal n \<noteq> []"
  by (subst decimal.simps) simp

lemma decimal_inj: "decimal a = decimal b \<Longrightarrow> a = b"
proof (induction a arbitrary: b rule: decimal.induct)
  case (1 n)
  show ?case
  proof (cases "n < 10")
    case True
    then have dn: "decimal n = [digit n]" by (subst decimal.simps) simp
    show ?thesis
    proof (cases "b < 10")
      case bs: True
      then have "decimal b = [digit b]" by (subst decimal.simps) simp
      with dn "1.prems" True bs show ?thesis by (simp add: digit_inj)
    next
      case False
      then have "decimal b = decimal (b div 10) @ [digit (b mod 10)]"
        by (subst decimal.simps) simp
      with dn "1.prems" decimal_nonempty [of "b div 10"] show ?thesis by simp
    qed
  next
    case False
    then have dn: "decimal n = decimal (n div 10) @ [digit (n mod 10)]"
      by (subst decimal.simps) simp
    show ?thesis
    proof (cases "b < 10")
      case True
      then have "decimal b = [digit b]" by (subst decimal.simps) simp
      with dn "1.prems" decimal_nonempty [of "n div 10"] show ?thesis by simp
    next
      case bl: False
      then have db: "decimal b = decimal (b div 10) @ [digit (b mod 10)]"
        by (subst decimal.simps) simp
      from dn db "1.prems" have e1: "decimal (n div 10) = decimal (b div 10)"
        and e2: "digit (n mod 10) = digit (b mod 10)" by simp_all
      from "1.IH" [OF False e1] have q: "n div 10 = b div 10" .
      from e2 have r: "n mod 10 = b mod 10" by (intro digit_inj) simp_all
      from q r show ?thesis by (metis div_mult_mod_eq)
    qed
  qed
qed

lemma jobKey_inj: "jobKey a = jobKey b \<Longrightarrow> a = b"
  by (simp add: jobKey_def)

lemma recordKept_data:
  "dataOf r = dataOf r' \<Longrightarrow> recordKept c p g r = recordKept c p g r'"
  by (simp add: recordKept_def dataOf_def HGET_def)

lemma enqueue_lua_recordKept:
  assumes "recordKept c p g r"
  shows "recordKept c p g (snd (enqueue_lua K A r))"
proof (cases "length K < 2 \<or> length A < 2")
  case True
  then show ?thesis using assms by (simp add: enqueue_lua_short)
next
  case False
  then obtain qk gk K' p' g' A' where K: "K = qk # gk # K'" and A: "A = p' # g' # A'"
    by (cases K; cases "tl K"; cases A; cases "tl A") auto
  from assms have "c \<noteq> Suc (jobCounter r)" by (simp add: recordKept_def)
  then have ne: "jobKey (decimal c) \<noteq> jobKey (decimal (Suc (jobCounter r)))"
    using decimal_inj jobKey_inj by blast
  show ?thesis
    using assms ne
    unfolding K A recordKept_def HGET_def enqueue_lua_hashStore enqueue_lua_jobCounter
    by simp
qed

lemma dequeue_lua_recordKept:
  "recordKept c p g r \<Longrightarrow> recordKept c p g (snd (dequeue_lua K A r))"
  by (auto simp: recordKept_def dequeue_lua_def Let_def split: list.splits)

lemma update_status_lua_recordKept:
  "recordKept c p g r \<Longrightarrow> recordKept c p g (snd (update_status_lua K A r))"
  by (auto simp: recordKept_def update_status_lua_def split: list.splits)

lemma get_status_lua_recordKept:
  "recordKept c p g r \<Longrightarrow> recordKept c p g (snd (get_status_lua K A r))"
  by (auto simp: recordKept_def get_status_lua_def split: list.splits)

lemma apply_op_recordKept:
  "recordKept c p g r \<Longrightarrow> recordKept c p g (snd (apply_op x r))"
  by (cases x)
     (simp_all add: enqueue_lua_recordKept dequeue_lua_recordKept update_status_lua_recordKept
        get_status_lua_recordKept)

lemma dequeue_lua_kept:
  assumes "recordKept c p g r" and "listStore r gk = decimal c # rest"
  shows "fst (dequeue_lua [gk] [] r) = Inr (Arr [Some (decimal c), Some p, Some g])"
  using assms by (simp add: recordKept_def dequeue_lua_def Let_def)

lemma resetGroupConsumerTimer_processMap:
  "processMap (resetGroupConsumerTimer qn gn wid q) = processMap q"
  by (simp add: resetGroupConsumerTimer_def setTimeout_def clearTimeout_def Let_def
      split: option.splits)

lemma iteration_hands_job:
  assumes rd: "scriptReady ''dequeue'' Dequeue_lua q2" and nf: "faults (redis q2) = []"
    and kept: "recordKept c p g (redis q2)" and head: "listStore (redis q2) gk = decimal c # rest"
    and reg: "map_of (processMap q2) qn = Some e"
    and rb: "parseRaw J (Some p) = Inr v"
  shows "handed (fst (groupWorkerIteration J qn gn gk wid q2)) =
           Some \<lparr>job_id = Some (decimal c), data = v,
                 groupName = (if g = [] then None else Some g)\<rparr>"
proof -
  have len: "1 \<le> length [gk]" by simp
  from safeEvalsha_ready [OF rd nf len] obtain r0 where
    d0: "dataOf r0 = dataOf (redis q2)" and
    se: "safeEvalsha ''dequeue'' 1 [gk] q2 =
           (fst (run_script Dequeue_lua (take 1 [gk]) (drop 1 [gk]) r0),
            q2\<lparr>redis := snd (run_script Dequeue_lua (take 1 [gk]) (drop 1 [gk]) r0)\<rparr>)"
    by blast
  have k0: "recordKept c p g r0" using kept recordKept_data [OF d0] by simp
  have h0: "listStore r0 gk = decimal c # rest" using head d0 by (simp add: dataOf_def)
  have res: "fst (run_script Dequeue_lua (take 1 [gk]) (drop 1 [gk]) r0) =
               Inr (Arr [Some (decimal c), Some p, Some g])"
    using dequeue_lua_kept [OF k0 h0] by simp
  let ?q1 = "q2\<lparr>redis := snd (run_script Dequeue_lua (take 1 [gk]) (drop 1 [gk]) r0)\<rparr>"
  let ?j = "\<lparr>job_id = Some (decimal c), data = v, groupName = (if g = [] then None else Some g)\<rparr>"
  have se': "safeEvalsha ''dequeue'' (Suc 0) [gk] q2 = (Inr (Arr [Some (decimal c), Some p, Some g]), ?q1)"
    using se res by simp
  have pm: "map_of (processMap (resetGroupConsumerTimer qn gn wid ?q1)) qn = Some e"
    using reg by (simp add: resetGroupConsumerTimer_processMap)
  obtain x q3 where pj: "processJob qn ?j (callback e) (resetGroupConsumerTimer qn gn wid ?q1) = (x, q3)"
    by (cases "processJob qn ?j (callback e) (resetGroupConsumerTimer qn gn wid ?q1)")
  have gn: "groupNameOf (Some g) = (if g = [] then None else Some g)"
    by (simp add: groupNameOf_def)
  show ?thesis
    using se' pm pj rb gn
    by (cases x)
       (simp_all add: groupWorkerIteration_def truthy_def Let_def nth_opt_def)
qed

lemma iteration_cannot_read_job:
  assumes rd: "scriptReady ''dequeue'' Dequeue_lua q2" and nf: "faults (redis q2) = []"
    and kept: "recordKept c p g (redis q2)" and head: "listStore (redis q2) gk = decimal c # rest"
    and rb: "parseRaw J (Some p) = Inl err"
  shows "fst (groupWorkerIteration J qn gn gk wid q2) = Raised err"
proof -
  have len: "1 \<le> length [gk]" by simp
  from safeEvalsha_ready [OF rd nf len] obtain r0 where
    d0: "dataOf r0 = dataOf (redis q2)" and
    se: "safeEvalsha ''dequeue'' 1 [gk] q2 =
           (fst (run_script Dequeue_lua (take 1 [gk]) (drop 1 [gk]) r0),
            q2\<lparr>redis := snd (run_script Dequeue_lua (take 1 [gk]) (drop 1 [gk]) r0)\<rparr>)"
    by blast
  have k0: "recordKept c p g r0" using kept recordKept_data [OF d0] by simp
  have h0: "listStore r0 gk = decimal c # rest" using head d0 by (simp add: dataOf_def)
  have res: "fst (run_script Dequeue_lua (take 1 [gk]) (drop 1 [gk]) r0) =
               Inr (Arr [Some (decimal c), Some p, Some g])"
    using dequeue_lua_kept [OF k0 h0] by simp
  let ?q1 = "q2\<lparr>redis := snd (run_script Dequeue_lua (take 1 [gk]) (drop 1 [gk]) r0)\<rparr>"
  have se': "safeEvalsha ''dequeue'' (Suc 0) [gk] q2 = (Inr (Arr [Some (decimal c), Some p, Some g]), ?q1)"
    using se res by simp
  show ?thesis
    using se' rb by (simp add: groupWorkerIteration_def truthy_def Let_def nth_opt_def)
qed

lemma add_recordKept:
  assumes rd: "scriptReady ''enqueue'' Enqueue_lua q"
    and ad: "add J qn gn d q = (Inr jobId, q1)"
  shows "jobId = Str (decimal (Suc (jobCounter (redis q)))) \<and>
         recordKept (Suc (jobCounter (redis q))) (stringify J d) gn (redis q1)"
proof -
  let ?qk = "''qube:'' @ qn @ '':groups''" and ?gk = "''qube:'' @ qn @ '':group:'' @ gn"
  obtain res qa where se: "safeEvalsha ''enqueue'' 2 [?qk, ?gk, stringify J d, gn] q = (res, qa)"
    by (cases "safeEvalsha ''enqueue'' 2 [?qk, ?gk, stringify J d, gn] q")
  from ad se obtain v where res: "res = Inr v"
    by (cases res) (simp_all add: add_def Let_def)
  note eff = safeEvalsha_enqueue_success [OF rd se [unfolded res]]
  from ad se res have j: "jobId = v" and d1: "dataOf (redis q1) = dataOf (redis qa)"
    by (auto simp: add_def Let_def client_publish_def dataOf_def split: option.splits)
  have "recordKept (Suc (jobCounter (redis q))) (stringify J d) gn (redis qa)"
    using eff by (simp add: recordKept_def HGET_def)
  then show ?thesis
    using eff j recordKept_data [OF d1] by simp
qed

text \<open>
  The record is kept by everything that a node does and by everything that the other
  clients do: a node reaches the job hashes through the scripts only, whichever script
  the store holds under the digest it sends, and \<open>updateProgress\<close> writes a hash of
  another name.
\<close>

lemma recordKept_view:
  "hashStore r' = hashStore r \<Longrightarrow> jobCounter r' = jobCounter r \<Longrightarrow>
   recordKept c p g r' = recordKept c p g r"
  by (simp add: recordKept_def HGET_def)

lemma run_script_recordKept:
  "recordKept c p g r \<Longrightarrow> recordKept c p g (snd (run_script src K A r))"
  by (cases src)
     (simp_all add: enqueue_lua_recordKept dequeue_lua_recordKept update_status_lua_recordKept
        get_status_lua_recordKept)

lemma sent_recordKept: "recordKept c p g (sent x r) = recordKept c p g r"
  by (rule recordKept_view) simp_all

lemma client_evalsha_recordKept:
  "recordKept c p g r \<Longrightarrow> recordKept c p g (snd (client_evalsha sha n args r))"
  by (simp add: client_evalsha_def run_script_recordKept sent_recordKept split: option.splits)

lemma client_script_load_recordKept:
  "recordKept c p g (snd (client_script_load s r)) = recordKept c p g r"
  by (rule recordKept_view) (simp_all add: client_script_load_def split: option.splits)

lemma safeEvalsha_recordKept:
  assumes k: "recordKept c p g (redis q)"
  shows "recordKept c p g (redis (snd (safeEvalsha key n args q)))"
proof -
  obtain x r1 where e1: "client_evalsha (map_of (shaField q) key) n args (redis q) = (x, r1)"
    by (cases "client_evalsha (map_of (shaField q) key) n args (redis q)")
  have k1: "recordKept c p g r1"
    using client_evalsha_recordKept [OF k, of "map_of (shaField q) key" n args] e1 by simp
  obtain y r2 where l: "client_script_load (map_of (scriptField q) key) r1 = (y, r2)"
    by (cases "client_script_load (map_of (scriptField q) key) r1")
  have k2: "recordKept c p g r2"
    using client_script_load_recordKept [of c p g "map_of (scriptField q) key" r1] l k1 by simp
  have k3: "recordKept c p g r3" if "client_evalsha sha n args r2 = (z, r3)" for sha z r3
    using client_evalsha_recordKept [OF k2, of sha n args] that by simp
  show ?thesis
    using e1 l k1 k2
    by (cases x; cases y) (auto simp: safeEvalsha_def split: prod.splits dest: k3)
qed

lemma updateJobStatus_recordKept:
  "recordKept c p g (redis q) \<Longrightarrow> recordKept c p g (redis (snd (updateJobStatus i s q)))"
  by (simp add: updateJobStatus_snd safeEvalsha_recordKept)

lemma progress_write_recordKept:
  "recordKept c p g (HSET (''qube:job:'' @ i) ''progress'' v r) = recordKept c p g r"
  using progress_key_is_not_job_key [of i "decimal c"]
  by (simp add: recordKept_def HGET_def HSET_def)

lemma updateProgress_recordKept:
  "recordKept c p g (redis q) \<Longrightarrow> recordKept c p g (redis (updateProgress i v q))"
  using progress_write_recordKept [of c p g "tmpl i" v "redis q"]
  by (simp add: updateProgress_def)

lemma runCallback_recordKept:
  "recordKept c p g (redis q) \<Longrightarrow> recordKept c p g (redis (snd (runCallback j acts q)))"
  by (rule runCallback_preserves [where P = "\<lambda>q. recordKept c p g (redis q)"])
     (simp_all add: updateJobStatus_recordKept updateProgress_recordKept)

lemma processJob_recordKept:
  assumes k: "recordKept c p g (redis q)"
  shows "recordKept c p g (redis (snd (processJob qn j fn q)))"
proof -
  obtain t q1 where rc: "runCallback j (fn j) q = (t, q1)" by (cases "runCallback j (fn j) q")
  have "recordKept c p g (redis q1)"
    using runCallback_recordKept [OF k, of j "fn j"] rc by simp
  then show ?thesis
    using rc by (cases t) (simp_all add: processJob_def updateJobStatus_recordKept)
qed

text \<open>The scheduler and the timers write \<open>activeGroupConsumers\<close> and nothing else of the store.\<close>

lemma startGroupConsumer_data:
  "dataOf (redis (startGroupConsumer qn gn gk fp n q)) = dataOf (redis q)"
  by (simp add: startGroupConsumer_def Let_def setTimeout_def addActiveConsumer_def dataOf_def
      split: option.splits)

lemma resetGroupConsumerTimer_redis:
  "redis (resetGroupConsumerTimer qn gn wid q) = redis q"
  by (simp add: resetGroupConsumerTimer_def setTimeout_def clearTimeout_def Let_def
      split: option.splits)

lemma fireTimeout_data: "dataOf (redis (fireTimeout h q)) = dataOf (redis q)"
  by (simp add: fireTimeout_def inactivityCallback_def addActiveConsumer_def dataOf_def
      split: option.splits)

lemma processPendingConsumers_data:
  "dataOf (redis (processPendingConsumers n q)) = dataOf (redis q)"
proof (induction n q rule: processPendingConsumers.induct)
  case (1 n q)
  show ?case
  proof (cases "pendingGroupConsumers q")
    case Nil
    then show ?thesis by (subst processPendingConsumers.simps) simp
  next
    case (Cons e rest)
    obtain qn gn gk where e: "e = (qn, gn, gk)" by (cases e)
    let ?q1 = "q\<lparr>pendingGroupConsumers := rest\<rparr>"
    let ?q2 = "if countActiveConsumersForGroup qn gn ?q1 < n
               then startGroupConsumer qn gn (Some gk) True n ?q1 else ?q1"
    have d2: "dataOf (redis ?q2) = dataOf (redis q)"
      by (simp add: startGroupConsumer_data)
    have "dataOf (redis (processPendingConsumers n ?q2)) = dataOf (redis ?q2)"
      using "1.IH" [OF Cons e [symmetric] refl refl refl] .
    then show ?thesis
      using Cons e d2 by (subst processPendingConsumers.simps) (simp add: Let_def)
  qed
qed

lemma deleteActiveConsumer_data:
  "dataOf (redis (deleteActiveConsumer qn gn wid q)) = dataOf (redis q)"
  by (simp add: deleteActiveConsumer_def dataOf_def)

lemma stopGroupConsumer_data:
  "dataOf (redis (snd (stopGroupConsumer qn gn wid q))) = dataOf (redis q)"
  by (simp add: stopGroupConsumer_def Let_def processPendingConsumers_data
      deleteActiveConsumer_data clearTimeout_def split: option.splits)

lemma groupWorkerIteration_recordKept:
  assumes k: "recordKept c p g (redis q)"
  shows "recordKept c p g (redis (snd (groupWorkerIteration J qn gn gk wid q)))"
proof -
  obtain res q1 where se: "safeEvalsha ''dequeue'' 1 [gk] q = (res, q1)"
    by (cases "safeEvalsha ''dequeue'' 1 [gk] q")
  have k1: "recordKept c p g (redis q1)"
    using safeEvalsha_recordKept [OF k, of "''dequeue''" 1 "[gk]"] se by simp
  have k2: "recordKept c p g (redis (resetGroupConsumerTimer qn gn wid q1))"
    using k1 by (simp add: resetGroupConsumerTimer_redis)
  have pj: "recordKept c p g (redis q3)"
    if "processJob qn j fn (resetGroupConsumerTimer qn gn wid q1) = (x, q3)" for j fn x q3
    using processJob_recordKept [OF k2, of qn j fn] that by simp
  have st: "recordKept c p g (redis q3)" if "stopGroupConsumer qn gn wid q1 = (x, q3)" for x q3
    using recordKept_data [OF stopGroupConsumer_data, of c p g qn gn wid q1] that k1 by simp
  show ?thesis
    using se k1 k2
    by (auto simp: groupWorkerIteration_def Let_def
        split: sum.splits option.splits prod.splits dest: pj st)
qed

lemma stepWorker_recordKept:
  assumes k: "recordKept c p g (redis q)"
  shows "recordKept c p g (redis (stepWorker J i q))"
proof (cases "i < length (workers q)")
  case False
  then show ?thesis using k by (simp add: stepWorker_def)
next
  case True
  obtain qn gn gk wid where w: "workers q ! i = (qn, gn, gk, wid)" by (cases "workers q ! i")
  obtain out q1 where it: "groupWorkerIteration J qn gn gk wid q = (out, q1)"
    by (cases "groupWorkerIteration J qn gn gk wid q")
  have "recordKept c p g (redis q1)"
    using groupWorkerIteration_recordKept [OF k, of J qn gn gk wid] it by simp
  then show ?thesis
    using True w it by (cases out) (simp_all add: stepWorker_def)
qed

lemma deliver_data: "dataOf (redis (deliver J i q)) = dataOf (redis q)"
proof -
  have "dataOf (redis (snd (snd (onMessage J channel msg q)))) = dataOf (redis q)" for channel msg
    by (auto simp: onMessage_def Let_def startGroupConsumer_data split: option.splits json.splits)
  then show ?thesis by (simp add: deliver_def split: prod.splits)
qed

lemma process_data: "dataOf (redis (process qn n cb q)) = dataOf (redis q)"
proof -
  have p: "dataOf (redis (((startGroupConsumer qn gn gk fp n) ^^ m) q')) = dataOf (redis q')"
    for gn gk fp m q'
    by (induction m) (simp_all add: startGroupConsumer_data)
  have f: "dataOf (redis (fold (\<lambda>g. (startGroupConsumer qn (normaliseGroup qn g) None False n) ^^ n)
                             gs q')) = dataOf (redis q')" for gs q'
    by (induction gs arbitrary: q') (simp_all add: p)
  show ?thesis by (simp add: process_def Let_def f)
qed

lemma add_keeps_record:
  assumes k: "recordKept c p g (redis q)"
  shows "recordKept c p g (redis (snd (add J qn gn d q)))"
proof -
  let ?a = "[''qube:'' @ qn @ '':groups'', ''qube:'' @ qn @ '':group:'' @ gn, stringify J d, gn]"
  obtain res q1 where se: "safeEvalsha ''enqueue'' 2 ?a q = (res, q1)"
    by (cases "safeEvalsha ''enqueue'' 2 ?a q")
  have k1: "recordKept c p g (redis q1)"
    using safeEvalsha_recordKept [OF k, of "''enqueue''" 2 ?a] se by simp
  have pb: "recordKept c p g r2" if "client_publish ch m (redis q1) = (x, r2)" for ch m x r2
    using k1 that recordKept_view [of r2 "redis q1" c p g]
    by (auto simp: client_publish_def split: option.splits)
  show ?thesis
  proof (cases res)
    case (Inl e)
    then show ?thesis using se k1 by (simp add: add_def Let_def)
  next
    case (Inr v)
    then show ?thesis
      using se by (auto simp: add_def Let_def split: prod.splits sum.splits dest: pb)
  qed
qed

lemma loadScripts_recordKept:
  "recordKept c p g (redis (snd (loadScripts ks q))) = recordKept c p g (redis q)"
proof (induction ks arbitrary: q)
  case Nil
  then show ?case by simp
next
  case (Cons k ks)
  obtain x q1 where l: "loadScript k q = (x, q1)" by (cases "loadScript k q")
  have "redis q1 = snd (client_script_load (map_of (scriptField q) k) (redis q))"
    using l by (auto simp: loadScript_def split: prod.splits sum.splits)
  then have v: "recordKept c p g (redis q1) = recordKept c p g (redis q)"
    by (simp add: client_script_load_recordKept)
  show ?case using l v Cons.IH [of q1] by (cases x) simp_all
qed

lemma init_recordKept:
  "recordKept c p g (redis (snd (init q))) = recordKept c p g (redis q)"
proof -
  let ?q0 = "q\<lparr>scriptField :=
                  AList.update ''getStatus'' Get_status_lua
                    (AList.update ''updateStatus'' Update_status_lua
                      (AList.update ''dequeue'' Dequeue_lua
                        (AList.update ''enqueue'' Enqueue_lua (scriptField q))))\<rparr>"
  let ?ks = "[''enqueue'', ''dequeue'', ''updateStatus'', ''getStatus'']"
  obtain x q1 where l: "loadScripts ?ks ?q0 = (x, q1)" by (cases "loadScripts ?ks ?q0")
  have v: "recordKept c p g (redis q1) = recordKept c p g (redis q)"
    using loadScripts_recordKept [of c p g ?ks ?q0] l by simp
  have "snd (init q) = q1"
    using l by (cases x) (simp_all add: init_def Let_def del: loadScripts.simps)
  then show ?thesis using v by simp
qed

lemma step_recordKept:
  assumes k: "recordKept c p g (redis q)"
  shows "recordKept c p g (redis (step J ev q))"
proof (cases ev)
  case Init
  then show ?thesis using k by (simp add: init_recordKept)
next
  case Subscribed
  then show ?thesis using k by (simp add: subscribed_def)
next
  case (Process qn n cb)
  then show ?thesis using k recordKept_data [OF process_data, of c p g qn n cb q] by simp
next
  case (Add qn gn d)
  then show ?thesis using k by (simp add: add_keeps_record)
next
  case (Deliver i)
  then show ?thesis using k recordKept_data [OF deliver_data, of c p g J i q] by simp
next
  case (StepWorker i)
  then show ?thesis using k by (simp add: stepWorker_recordKept)
next
  case (FireTimeout h)
  then show ?thesis using k recordKept_data [OF fireTimeout_data, of c p g h q] by simp
next
  case (Start qn gn gk fp n)
  then show ?thesis
    using k recordKept_data [OF startGroupConsumer_data, of c p g qn gn gk fp n q] by simp
next
  case (Reset qn gn wid)
  then show ?thesis using k by (simp add: resetGroupConsumerTimer_redis)
next
  case (Stop qn gn wid)
  then show ?thesis
    using k recordKept_data [OF stopGroupConsumer_data, of c p g qn gn wid q] by simp
next
  case (OtherScript x)
  then show ?thesis using k by (simp add: apply_op_recordKept)
next
  case (OtherProgress i v)
  then show ?thesis using k progress_write_recordKept [of c p g i v "redis q"] by simp
next
  case (OtherHset key info)
  then show ?thesis using k by (simp add: recordKept_def HGET_def)
next
  case (OtherHdel key)
  then show ?thesis using k by (simp add: recordKept_def HGET_def)
next
  case (OtherPublish ch m)
  then show ?thesis using k by (simp add: recordKept_def HGET_def)
next
  case (OtherLoad src)
  then show ?thesis using k by (simp add: recordKept_def HGET_def)
next
  case OtherFlush
  then show ?thesis using k by (simp add: recordKept_def HGET_def)
qed

lemma run_recordKept:
  "recordKept c p g (redis q) \<Longrightarrow> recordKept c p g (redis (run J evs q))"
  by (induction evs arbitrary: q) (simp_all add: step_recordKept)

text \<open>
  C9, as the code has it. Let \<open>add(queueName, groupName, data)\<close> return job id \<open>j\<close> on a
  node whose enqueue script is in place, for any payload and any group name. Take any
  node \<open>qc\<close> on the store that \<open>add\<close> left (the same node, or another one), and let any
  operations of that node and of the other clients of the store follow: jobs added and
  processed, with callbacks that report progress, workers started and stopped, script
  calls and progress writes from elsewhere. Let \<open>j\<close> then be at the head of the list
  that a worker of that node polls, with the dequeue script in place, no fault due and
  a registration for the worker's queue. The pass of the worker reads the stored text
  of the payload as \<open>jobDataRaw ? JSON.parse(jobDataRaw) : null\<close>. If that throws, the
  pass ends with the exception. Otherwise it hands the callback the job with id \<open>j\<close>,
  with \<open>data\<close> equal to what was read, which is the input whenever \<open>JSON.parse\<close> gives
  back what \<open>JSON.stringify\<close> was given, and with \<open>groupName\<close> equal to the group when
  that is not the empty string, and \<open>undefined\<close> when it is.
\<close>

theorem add_then_worker_round_trip:
  assumes enq: "scriptReady ''enqueue'' Enqueue_lua q"
    and added: "add J qn gn d q = (Inr (Str j), q1)"
    and shared: "redis qc = redis q1"
    and head: "listStore (redis (run J evs qc)) gk = j # rest"
    and deq: "scriptReady ''dequeue'' Dequeue_lua (run J evs qc)"
    and nf: "faults (redis (run J evs qc)) = []"
    and reg: "map_of (processMap (run J evs qc)) qn' = Some e"
  shows "case parseRaw J (Some (stringify J d)) of
           Inr v \<Rightarrow>
             handed (fst (groupWorkerIteration J qn' gn' gk wid (run J evs qc))) =
               Some \<lparr>job_id = Some j, data = v,
                     groupName = (if gn = [] then None else Some gn)\<rparr>
         | Inl err \<Rightarrow> fst (groupWorkerIteration J qn' gn' gk wid (run J evs qc)) = Raised err"
proof -
  from add_recordKept [OF enq added]
  have j: "j = decimal (Suc (jobCounter (redis q)))"
    and k1: "recordKept (Suc (jobCounter (redis q))) (stringify J d) gn (redis q1)"
    by simp_all
  have k2: "recordKept (Suc (jobCounter (redis q))) (stringify J d) gn (redis (run J evs qc))"
    using k1 shared by (intro run_recordKept) simp
  show ?thesis
  proof (cases "parseRaw J (Some (stringify J d))")
    case (Inl err)
    from iteration_cannot_read_job [OF deq nf k2 head [unfolded j] Inl]
    show ?thesis using Inl by simp
  next
    case (Inr v)
    from iteration_hands_job [OF deq nf k2 head [unfolded j] reg Inr]
    show ?thesis using Inr by (simp add: j)
  qed
qed

text \<open>
  On \<open>reportingNode\<close>: \<open>add("A", "h", "Hola mundo 1")\<close> returns id 1. Then the
  notification starts worker \<open>w1\<close> for group \<open>h\<close>; a job is added to group \<open>g\<close> of queue
  \<open>B\<close>, whose worker \<open>w2\<close> is started and processes it with a callback that reports
  progress and awaits \<open>done\<close>; another client enqueues into a third group and writes a
  progress value for job 1. The pass of \<open>w1\<close> then hands over job 1 with the payload and
  the group name as they were given.
\<close>

theorem add_then_worker_round_trip_witness:
  "scriptReady ''enqueue'' Enqueue_lua reportingNode \<and>
   fst (add exampleJson ''A'' ''h'' (JStr ''Hola mundo 1'') reportingNode) = Inr (Str ''1'') \<and>
   listStore (redis reportedNode) ''qube:A:group:h'' = [''1''] \<and>
   HGET ''qube:job:2'' ''progress'' (redis reportedNode) = Some ''50'' \<and>
   HGET ''qube:job:1'' ''progress'' (redis reportedNode) = Some ''99'' \<and>
   scriptReady ''dequeue'' Dequeue_lua reportedNode \<and>
   faults (redis reportedNode) = [] \<and>
   parseRaw exampleJson (Some (stringify exampleJson (JStr ''Hola mundo 1''))) =
     Inr (JStr ''Hola mundo 1'') \<and>
   handed (fst (groupWorkerIteration exampleJson ''A'' ''h'' ''qube:A:group:h'' ''w1'' reportedNode)) =
     Some \<lparr>job_id = Some ''1'', data = JStr ''Hola mundo 1'', groupName = Some ''h''\<rparr>"
proof -
  let ?q1 = "snd (add exampleJson ''A'' ''h'' (JStr ''Hola mundo 1'') reportingNode)"
  have r: "reportedNode = run exampleJson laterEvents ?q1"
    by (simp add: reportedNode_def)
  have a: "scriptReady ''enqueue'' Enqueue_lua reportingNode" by code_simp
  have b0: "fst (add exampleJson ''A'' ''h'' (JStr ''Hola mundo 1'') reportingNode) = Inr (Str ''1'')"
    by code_simp
  then have b: "add exampleJson ''A'' ''h'' (JStr ''Hola mundo 1'') reportingNode = (Inr (Str ''1''), ?q1)"
    by (simp add: prod_eq_iff)
  have c: "redis ?q1 = redis ?q1" by simp
  have d: "listStore (redis reportedNode) ''qube:A:group:h'' = ''1'' # []" by code_simp
  have e: "scriptReady ''dequeue'' Dequeue_lua reportedNode" by code_simp
  have f: "faults (redis reportedNode) = []" by code_simp
  have m: "''A'' \<in> set (map fst (processMap reportedNode))" by code_simp
  then obtain en where g: "map_of (processMap reportedNode) ''A'' = Some en"
    by (cases "map_of (processMap reportedNode) ''A''") (auto simp: map_of_eq_None_iff)
  have h: "parseRaw exampleJson (Some (stringify exampleJson (JStr ''Hola mundo 1''))) =
             Inr (JStr ''Hola mundo 1'')"
    by code_simp
  have p2: "HGET ''qube:job:2'' ''progress'' (redis reportedNode) = Some ''50''" by code_simp
  have p1: "HGET ''qube:job:1'' ''progress'' (redis reportedNode) = Some ''99''" by code_simp
  from add_then_worker_round_trip [OF a b c d [unfolded r] e [unfolded r] f [unfolded r]
      g [unfolded r], of "''h''" "''w1''"]
  show ?thesis using a b0 d e f h p1 p2 by (simp add: r)
qed

text \<open>
  C9 as the claim states it, for every payload and every group, fails at two inputs.
  The worker builds \<open>groupName\<close> as \<open>groupNameFromJob ? groupNameFromJob.toString() : undefined\<close>,
  so the job enqueued into group \<open>""\<close> is handed over with \<open>groupName\<close> undefined. And
  \<open>JSON.stringify(NaN)\<close> is the text \<open>null\<close>, so the job added with payload \<open>NaN\<close> is
  handed over with \<open>data\<close> \<open>null\<close>.
\<close>

theorem empty_group_name_and_NaN_are_lost:
  "fst (add exampleJson ''Q'' [] (JStr ''Hola mundo 1'') consumerNode) = Inr (Str ''1'') \<and>
   handed (fst (groupWorkerIteration exampleJson ''Q'' [] ''qube:Q:group:'' ''w1''
                 (snd (add exampleJson ''Q'' [] (JStr ''Hola mundo 1'') consumerNode)))) =
     Some \<lparr>job_id = Some ''1'', data = JStr ''Hola mundo 1'', groupName = None\<rparr> \<and>
   fst (add exampleJson ''Q'' ''G'' JNaN consumerNode) = Inr (Str ''1'') \<and>
   handed (fst (groupWorkerIteration exampleJson ''Q'' ''G'' ''qube:Q:group:G'' ''w1''
                 (snd (add exampleJson ''Q'' ''G'' JNaN consumerNode)))) =
     Some \<lparr>job_id = Some ''1'', data = JNull, groupName = Some ''G''\<rparr>"
  by code_simp

section \<open>The quota of a group\<close>

text \<open>
  The guard of \<open>startGroupConsumer\<close>: when the count of the group has reached
  \<open>nConsumers\<close>, no record is written, no timer is set and no worker is started; the
  request is appended to \<open>pendingGroupConsumers\<close> unless it came from there.
\<close>

lemma startGroupConsumer_saturated:
  "n \<le> countActiveConsumersForGroup qn gn q \<Longrightarrow>
   startGroupConsumer qn gn gk fromPending n q =
     (if fromPending then q
      else q\<lparr>pendingGroupConsumers := pendingGroupConsumers q @
              [(qn, gn, case gk of None \<Rightarrow> defaultGroupKey qn gn
                        | Some k \<Rightarrow> if k = [] then defaultGroupKey qn gn else k)]\<rparr>)"
  by (simp add: startGroupConsumer_def Let_def)

text \<open>
  C4 fails on the code, in its consequence I2. At the end of \<open>drainScenario\<close> the node
  runs two workers for group \<open>g\<close> of queue \<open>B\<close>, both with a live record, while the
  registration of \<open>B\<close> says \<open>nConsumers = 1\<close>: \<open>stopGroupConsumer\<close> of the worker of queue
  \<open>A\<close> drained the pending list with the \<open>nConsumers\<close> of \<open>A\<close>, which is 2.
\<close>

theorem drain_exceeds_nConsumers:
  "map_option nConsumers (map_of (processMap drainScenario) ''B'') = Some 1 \<and>
   workers drainScenario =
     [(''B'', ''g'', ''qube:B:group:g'', ''w2''), (''B'', ''g'', ''qube:B:group:g'', ''w3'')] \<and>
   countActiveConsumersForGroup ''B'' ''g'' drainScenario = 2 \<and>
   pendingGroupConsumers drainScenario = []"
  by code_simp

section \<open>Worker ownership\<close>

lemma outside_knownKeys:
  assumes "k \<notin> set (knownKeys q)"
  shows "\<not> hasTimer q k \<and> \<not> ownedRecord q k \<and> \<not> runningRecord q k"
proof -
  from assms have "map_of (localTimers q) k = None"
    and "map_of (activeGroupConsumers (redis q)) k = None"
    by (simp_all add: knownKeys_def map_of_eq_None_iff)
  then show ?thesis by (simp add: hasTimer_def ownedRecord_def runningRecord_def)
qed

lemma I5_iff: "I5 q = (\<forall>k. hasTimer q k = runningRecord q k)"
  unfolding I5_def list_all_iff using outside_knownKeys by blast































text \<open>
  The operations are taken as wholes, and the invariant depends on it. The timer
  callback is its second half run on what its first half read; when
  \<open>stopGroupConsumer\<close> comes between the two halves, the write brings back the record
  that was deleted, and the node owns a record without an entry in \<open>localTimers\<close>.
\<close>

lemma inactivityCallback_halves:
  "inactivityCallback qn gn wid q =
     inactivityCallbackWrite qn gn wid (getActiveConsumer qn gn wid q) q"
  by (simp add: inactivityCallback_def inactivityCallbackWrite_def split: option.splits)

lemma stop_between_the_halves:
  "ownedHaveTimers node1 \<and>
   ownedRecord
     (inactivityCallbackWrite ''Q'' ''G'' ''w1'' (getActiveConsumer ''Q'' ''G'' ''w1'' node1)
        (snd (stopGroupConsumer ''Q'' ''G'' ''w1'' node1))) ''qube:Q:G:w1'' \<and>
   \<not> hasTimer
     (inactivityCallbackWrite ''Q'' ''G'' ''w1'' (getActiveConsumer ''Q'' ''G'' ''w1'' node1)
        (snd (stopGroupConsumer ''Q'' ''G'' ''w1'' node1))) ''qube:Q:G:w1'' \<and>
   \<not> ownedHaveTimers
     (inactivityCallbackWrite ''Q'' ''G'' ''w1'' (getActiveConsumer ''Q'' ''G'' ''w1'' node1)
        (snd (stopGroupConsumer ''Q'' ''G'' ''w1'' node1)))"
  by code_simp




end
